theory Spec2Isabelle
  imports Complex_Main "HOL-Library.Signed_Division"
begin

section \<open>Errors\<close>

text \<open>
  A thrown JavaScript value. Every \<open>catch\<close> of the pipeline reads it with
  \<open>error instanceof Error ? error.message : "Unknown error"\<close>, so the model keeps the
  message of an \<open>Error\<close> instance (a \<open>TypeError\<close> or \<open>SyntaxError\<close> is one too) and
  one constructor for any other thrown value.
\<close>

datatype js_error = JsError string | NonError

fun error_message :: "js_error \<Rightarrow> string" where
  "error_message (JsError m) = m"
| "error_message NonError = ''Unknown error''"

section \<open>Strings\<close>

text \<open>
  Token symbols, account ids and the keywords searched for are ASCII; \<open>toLowerCase\<close> is
  modelled on ASCII letters and leaves every other character as it is.
\<close>

definition lower_char :: "char \<Rightarrow> char" where
  "lower_char c =
     (case map_of (zip ''ABCDEFGHIJKLMNOPQRSTUVWXYZ'' ''abcdefghijklmnopqrstuvwxyz'') c of
        Some l \<Rightarrow> l
      | None \<Rightarrow> c)"

definition toLowerCase :: "string \<Rightarrow> string" where
  "toLowerCase s = map lower_char s"

fun starts_with :: "string \<Rightarrow> string \<Rightarrow> bool" where
  "starts_with s [] = True"
| "starts_with [] (c # cs) = False"
| "starts_with (x # xs) (c # cs) = (x = c \<and> starts_with xs cs)"

text \<open>\<open>s.includes(sub)\<close>: \<open>sub\<close> occurs in \<open>s\<close> at some position.\<close>

fun str_includes :: "string \<Rightarrow> string \<Rightarrow> bool" where
  "str_includes [] sub = (sub = [])"
| "str_includes (x # xs) sub = (starts_with (x # xs) sub \<or> str_includes xs sub)"

section \<open>Task history ledger (lib/agents/task-history-service.ts)\<close>

datatype task_status = Pending | Running | Completed | Failed

text \<open>
  A row of the table \<open>AgentTaskHistory\<close> (lib/db/schema.ts). The uuid primary key is a
  natural number, timestamps are natural numbers, a nullable column is an option, and
  the JSON snapshots of the columns \<open>taskInput\<close> and \<open>taskOutput\<close> are values of a
  type \<open>'j\<close> that the callers choose; the callers pass objects, which are truthy.
\<close>

record 'j agent_task_history =
  task_id :: nat
  agentId :: string
  taskType :: string
  taskDescription :: string
  taskInput :: "'j option"
  taskOutput :: "'j option"
  status :: task_status
  errorMessage :: "string option"
  startedAt :: nat
  completedAt :: "nat option"
  createdAt :: nat

record 'j create_task_data =
  new_agentId :: string
  new_taskType :: string
  new_taskDescription :: string
  new_taskInput :: "'j option"

record 'j update_task_data =
  upd_taskOutput :: "'j option"
  upd_status :: task_status
  upd_errorMessage :: "string option"
  upd_completedAt :: "nat option"

text \<open>The table: its rows in insertion order. A fresh key is the number of rows.\<close>

type_synonym 'j ledger = "'j agent_task_history list"

text \<open>\<open>x || null\<close> on an optional string: the empty string is falsy as well.\<close>

fun or_null :: "string option \<Rightarrow> string option" where
  "or_null None = None"
| "or_null (Some s) = (if s = [] then None else Some s)"

text \<open>
  \<open>createTask\<close>: inserts a row with status \<open>pending\<close> and \<open>startedAt = new Date()\<close>;
  \<open>taskOutput\<close>, \<open>errorMessage\<close> and \<open>completedAt\<close> are not given and take the column
  default NULL, \<open>createdAt\<close> takes \<open>now()\<close>. Returns the row.
\<close>

definition createTask ::
  "'j ledger \<Rightarrow> nat \<Rightarrow> 'j create_task_data \<Rightarrow> 'j agent_task_history \<times> 'j ledger" where
  "createTask db now data =
     (let task = \<lparr> task_id = length db,
                    agentId = new_agentId data,
                    taskType = new_taskType data,
                    taskDescription = new_taskDescription data,
                    taskInput = new_taskInput data,
                    taskOutput = None,
                    status = Pending,
                    errorMessage = None,
                    startedAt = now,
                    completedAt = None,
                    createdAt = now \<rparr>
      in (task, db @ [task]))"

text \<open>
  The \<open>set\<close> clause of \<open>updateTask\<close>: \<open>...data\<close> writes the status, then the three
  columns are written as \<open>data.taskOutput || null\<close>, \<open>data.errorMessage || null\<close> and
  \<open>data.completedAt || (status is completed or failed ? new Date() : null)\<close>.
\<close>

definition set_columns ::
  "nat \<Rightarrow> 'j update_task_data \<Rightarrow> 'j agent_task_history \<Rightarrow> 'j agent_task_history" where
  "set_columns now data row =
     row \<lparr> status := upd_status data,
           taskOutput := upd_taskOutput data,
           errorMessage := or_null (upd_errorMessage data),
           completedAt :=
             (case upd_completedAt data of
                Some d \<Rightarrow> Some d
              | None \<Rightarrow>
                  if upd_status data = Completed \<or> upd_status data = Failed
                  then Some now else None) \<rparr>"

text \<open>
  \<open>updateTask\<close>: updates the rows whose key is \<open>taskId\<close> and returns the first updated
  row, or null when there is none.
\<close>

definition updateTask ::
  "'j ledger \<Rightarrow> nat \<Rightarrow> nat \<Rightarrow> 'j update_task_data \<Rightarrow>
   'j agent_task_history option \<times> 'j ledger" where
  "updateTask db now taskId data =
     (let db' = map (\<lambda>row. if task_id row = taskId then set_columns now data row else row) db
      in (find (\<lambda>row. task_id row = taskId) db', db'))"

text \<open>\<open>getTask\<close>: the row with the key, or null.\<close>

definition getTask :: "'j ledger \<Rightarrow> nat \<Rightarrow> 'j agent_task_history option" where
  "getTask db taskId = find (\<lambda>row. task_id row = taskId) db"

text \<open>
  A history of ledger calls, each with the clock value it reads, run from a given table.
\<close>

datatype 'j ledger_op = CreateTask "'j create_task_data" | UpdateTask nat "'j update_task_data"

fun apply_ledger_op :: "'j ledger \<Rightarrow> nat \<times> 'j ledger_op \<Rightarrow> 'j ledger" where
  "apply_ledger_op db (now, CreateTask data) = snd (createTask db now data)"
| "apply_ledger_op db (now, UpdateTask taskId data) = snd (updateTask db now taskId data)"

fun run_ledger_ops :: "'j ledger \<Rightarrow> (nat \<times> 'j ledger_op) list \<Rightarrow> 'j ledger" where
  "run_ledger_ops db [] = db"
| "run_ledger_ops db (c # cs) = run_ledger_ops (apply_ledger_op db c) cs"

text \<open>The caller supplies no \<open>completedAt\<close> of its own.\<close>

fun no_explicit_completedAt :: "nat \<times> 'j ledger_op \<Rightarrow> bool" where
  "no_explicit_completedAt (now, CreateTask data) = True"
| "no_explicit_completedAt (now, UpdateTask taskId data) = (upd_completedAt data = None)"

text \<open>The invariant of a row: \<open>completedAt\<close> is set exactly when the status is terminal.\<close>

definition completedAt_iff_terminal :: "'j agent_task_history \<Rightarrow> bool" where
  "completedAt_iff_terminal row =
     ((completedAt row \<noteq> None) = (status row = Completed \<or> status row = Failed))"

section \<open>Liquidity discovery (findPool in lib/ref-finance/swap.ts, hasLiquidityPool in the token analyzer)\<close>

text \<open>A pool as \<open>get_pools\<close> returns it; only \<open>token_account_ids\<close> is read.\<close>

record pool =
  token_account_ids :: "string list"

text \<open>
  The two view calls on the DEX contract. Each \<open>provider.query\<close>, with the decoding of
  its reply by \<open>JSON.parse\<close>, either throws or gives a value; \<open>get_pools\<close> takes
  \<open>from_index\<close> and \<open>limit\<close>.
\<close>

record dex_rpc =
  get_number_of_pools :: "js_error + nat"
  get_pools :: "nat \<Rightarrow> nat \<Rightarrow> js_error + pool list"

text \<open>
  \<open>hasTokenIn && hasTokenOut\<close>: both identifiers are among the pool's tokens
  (\<open>Array.prototype.includes\<close>), whichever is the input.
\<close>

definition has_both :: "string \<Rightarrow> string \<Rightarrow> pool \<Rightarrow> bool" where
  "has_both tokenIn tokenOut p =
     (tokenIn \<in> set (token_account_ids p) \<and> tokenOut \<in> set (token_account_ids p))"

text \<open>The inner loop over one page: the position \<open>j\<close> of the first pool that matches.\<close>

fun first_match :: "(pool \<Rightarrow> bool) \<Rightarrow> pool list \<Rightarrow> nat \<Rightarrow> nat option" where
  "first_match P [] j = None"
| "first_match P (p # ps) j = (if P p then Some j else first_match P ps (Suc j))"

text \<open>
  The outer loop \<open>for (let i = 0; i < Math.min(numPools, cap); i += batchSize)\<close> with
  \<open>batchSize = 100\<close>, from the index \<open>i\<close>: a page is requested, a thrown error leaves the
  loop, a match returns the pool id \<open>i + j\<close>.
\<close>

function scan_pools :: "dex_rpc \<Rightarrow> (pool \<Rightarrow> bool) \<Rightarrow> nat \<Rightarrow> nat \<Rightarrow> js_error + nat option" where
  "scan_pools rpc P bound i =
     (if i < bound then
        (case get_pools rpc i 100 of
           Inl e \<Rightarrow> Inl e
         | Inr pools \<Rightarrow>
             (case first_match P pools 0 of
                Some j \<Rightarrow> Inr (Some (i + j))
              | None \<Rightarrow> scan_pools rpc P bound (i + 100)))
      else Inr None)"
  by pat_completeness auto
termination
  by (relation "measure (\<lambda>(rpc, P, bound, i). bound - i)") auto

text \<open>The body of the \<open>try\<close> block of \<open>findPool\<close>.\<close>

definition findPool_body :: "dex_rpc \<Rightarrow> string \<Rightarrow> string \<Rightarrow> js_error + nat option" where
  "findPool_body rpc tokenIn tokenOut =
     (case get_number_of_pools rpc of
        Inl e \<Rightarrow> Inl e
      | Inr numPools \<Rightarrow> scan_pools rpc (has_both tokenIn tokenOut) (min numPools 500) 0)"

text \<open>\<open>findPool\<close>: the \<open>catch\<close> returns null.\<close>

definition findPool :: "dex_rpc \<Rightarrow> string \<Rightarrow> string \<Rightarrow> nat option" where
  "findPool rpc tokenIn tokenOut =
     (case findPool_body rpc tokenIn tokenOut of Inl e \<Rightarrow> None | Inr r \<Rightarrow> r)"

definition WRAP_NEAR_TOKEN :: string where
  "WRAP_NEAR_TOKEN = ''wrap.testnet''"

text \<open>
  \<open>hasLiquidityPool\<close>: the same two loops with the cap 200 and the pair wNEAR and
  \<open>tokenId\<close>; a match returns true, the end of the scan and the \<open>catch\<close> return false.
\<close>

definition hasLiquidityPool_body :: "dex_rpc \<Rightarrow> string \<Rightarrow> js_error + nat option" where
  "hasLiquidityPool_body rpc tokenId =
     (case get_number_of_pools rpc of
        Inl e \<Rightarrow> Inl e
      | Inr numPools \<Rightarrow> scan_pools rpc (has_both WRAP_NEAR_TOKEN tokenId) (min numPools 200) 0)"

definition hasLiquidityPool :: "dex_rpc \<Rightarrow> string \<Rightarrow> bool" where
  "hasLiquidityPool rpc tokenId =
     (case hasLiquidityPool_body rpc tokenId of
        Inl e \<Rightarrow> False
      | Inr None \<Rightarrow> False
      | Inr (Some k) \<Rightarrow> True)"

text \<open>
  A contract whose pool registry is the list \<open>reg\<close> and whose calls succeed:
  \<open>get_number_of_pools\<close> is its length and \<open>get_pools\<close> the slice
  \<open>reg[from_index .. from_index + limit)\<close>, cut at the end of the registry.
\<close>

definition registry_rpc :: "pool list \<Rightarrow> dex_rpc" where
  "registry_rpc reg =
     \<lparr> get_number_of_pools = Inr (length reg),
       get_pools = (\<lambda>from_index limit. Inr (take limit (drop from_index reg))) \<rparr>"

section \<open>Numbers as text\<close>

text \<open>
  Amounts are ASCII text. \<open>BigInt(text)\<close> trims white space and reads an empty text as
  0, a decimal literal with an optional sign, or a literal with the prefix 0x, 0o or
  0b; on any other text it throws a \<open>SyntaxError\<close> (\<open>None\<close>).
\<close>

definition is_space :: "char \<Rightarrow> bool" where
  "is_space c = (c \<in> set [CHR 0x09, CHR 0x0A, CHR 0x0B, CHR 0x0C, CHR 0x0D, CHR 0x20])"

definition trim :: "string \<Rightarrow> string" where
  "trim s = rev (dropWhile is_space (rev (dropWhile is_space s)))"

definition is_digit :: "char \<Rightarrow> bool" where
  "is_digit c = (c \<in> set ''0123456789'')"

definition digit_value :: "nat \<Rightarrow> char \<Rightarrow> nat option" where
  "digit_value radix c =
     (case map_of (zip ''0123456789abcdef'' [0, 1, 2, 3, 4, 5, 6, 7, 8, 9, 10, 11, 12, 13, 14, 15])
             (lower_char c) of
        None \<Rightarrow> None
      | Some d \<Rightarrow> if d < radix then Some d else None)"

fun parse_digits :: "nat \<Rightarrow> string \<Rightarrow> nat \<Rightarrow> nat option" where
  "parse_digits radix [] acc = Some acc"
| "parse_digits radix (c # cs) acc =
     (case digit_value radix c of
        None \<Rightarrow> None
      | Some d \<Rightarrow> parse_digits radix cs (acc * radix + d))"

definition parse_unsigned :: "nat \<Rightarrow> string \<Rightarrow> int option" where
  "parse_unsigned radix ds =
     (if ds = [] then None else map_option int (parse_digits radix ds 0))"

definition BigInt :: "string \<Rightarrow> int option" where
  "BigInt s =
     (let t = trim s
      in if t = [] then Some 0
         else if starts_with t ''0x'' \<or> starts_with t ''0X'' then parse_unsigned 16 (drop 2 t)
         else if starts_with t ''0o'' \<or> starts_with t ''0O'' then parse_unsigned 8 (drop 2 t)
         else if starts_with t ''0b'' \<or> starts_with t ''0B'' then parse_unsigned 2 (drop 2 t)
         else if starts_with t ''-'' then map_option uminus (parse_unsigned 10 (drop 1 t))
         else if starts_with t ''+'' then parse_unsigned 10 (drop 1 t)
         else parse_unsigned 10 t)"

text \<open>\<open>toString()\<close> of a BigInt or of an integer: its decimal digits.\<close>

definition digit_char :: "nat \<Rightarrow> char" where
  "digit_char d = ''0123456789'' ! d"

fun digits_of :: "nat \<Rightarrow> string" where
  "digits_of n = (if n < 10 then [digit_char n] else digits_of (n div 10) @ [digit_char (n mod 10)])"

declare digits_of.simps [simp del]

definition string_of_int :: "int \<Rightarrow> string" where
  "string_of_int i = (if i < 0 then CHR ''-'' # digits_of (nat (- i)) else digits_of (nat i))"

section \<open>Swap estimate and builder (lib/ref-finance/swap.ts)\<close>

text \<open>\<open>/e/i.test(value)\<close>: the text has an exponent marker.\<close>

definition has_exponent_marker :: "string \<Rightarrow> bool" where
  "has_exponent_marker val = (CHR ''e'' \<in> set val \<or> CHR ''E'' \<in> set val)"

text \<open>
  \<open>isNaN(parseFloat(value))\<close>: \<open>parseFloat\<close> skips leading white space and is NaN
  exactly when no prefix of the rest is a decimal literal, that is, when after an
  optional sign there is neither \<open>Infinity\<close>, nor a digit, nor a dot followed by a digit.
\<close>

definition parseFloat_is_NaN :: "string \<Rightarrow> bool" where
  "parseFloat_is_NaN val =
     (let t = dropWhile is_space val;
          u = (if starts_with t ''+'' \<or> starts_with t ''-'' then drop 1 t else t)
      in \<not> (starts_with u ''Infinity'' \<or>
             (case u of
                [] \<Rightarrow> False
              | c # rest \<Rightarrow>
                  is_digit c \<or>
                  (c = CHR ''.'' \<and> (case rest of [] \<Rightarrow> False | d # ds \<Rightarrow> is_digit d)))))"

text \<open>
  \<open>convertScientificToString\<close>. The double that \<open>parseFloat\<close> reads and its printing
  by \<open>toLocaleString('fullwide', {useGrouping: false, maximumFractionDigits: 0})\<close> are
  floating point and locale formatting; the model takes their composition as the
  parameter \<open>fullwide\<close>, from the text to the printed text.
\<close>

definition convertScientificToString :: "(string \<Rightarrow> string) \<Rightarrow> string \<Rightarrow> js_error + string" where
  "convertScientificToString fullwide val =
     (if \<not> has_exponent_marker val then Inr val
      else if parseFloat_is_NaN val then Inl (JsError (''Invalid number: '' @ val))
      else Inr (fullwide val))"

text \<open>
  Line 170 of \<open>estimateSwap\<close>: \<open>BigInt(expectedOutput) * BigInt(99) / BigInt(100)\<close>.
  A BigInt is an unbounded integer and its division truncates towards zero, which is
  \<open>sdiv\<close> on \<open>int\<close> (\<open>div\<close> would round down).
\<close>

definition apply_slippage :: "int \<Rightarrow> int" where
  "apply_slippage expectedOutput = (expectedOutput * 99) sdiv 100"

record SwapEstimate =
  inputToken :: string
  outputToken :: string
  inputAmount :: string
  expectedOutput :: string
  minimumOutput :: string
  priceImpact :: string
  est_pool :: "string list"

text \<open>
  The quoting view call \<open>get_return\<close> of the DEX contract, with \<open>pool_id\<close>, \<open>token_in\<close>,
  \<open>amount_in\<close> and \<open>token_out\<close>: it throws or answers with a JSON string, the amount.
\<close>

type_synonym get_return_call = "nat \<Rightarrow> string \<Rightarrow> string \<Rightarrow> string \<Rightarrow> js_error + string"

definition no_pool_error :: "string \<Rightarrow> string \<Rightarrow> js_error" where
  "no_pool_error tokenIn tokenOut =
     JsError (''No liquidity pool found for '' @ tokenIn @ '' <-> '' @ tokenOut)"

text \<open>\<open>estimateSwap\<close>; its \<open>catch\<close> logs and throws the error again.\<close>

definition estimateSwap ::
  "dex_rpc \<Rightarrow> get_return_call \<Rightarrow> (string \<Rightarrow> string) \<Rightarrow> string \<Rightarrow> string \<Rightarrow> string \<Rightarrow>
   js_error + SwapEstimate" where
  "estimateSwap rpc get_return fullwide inputTokenId inputAmount' outputTokenId =
     (case findPool rpc inputTokenId outputTokenId of
        None \<Rightarrow> Inl (no_pool_error inputTokenId outputTokenId)
      | Some poolId \<Rightarrow>
          (case convertScientificToString fullwide inputAmount' of
             Inl e \<Rightarrow> Inl e
           | Inr inputAmountStr \<Rightarrow>
               (case get_return poolId inputTokenId inputAmountStr outputTokenId of
                  Inl e \<Rightarrow> Inl e
                | Inr expectedOutput' \<Rightarrow>
                    (case BigInt expectedOutput' of
                       None \<Rightarrow> Inl (JsError ''Cannot convert to a BigInt'')
                     | Some quote \<Rightarrow>
                         Inr \<lparr> inputToken = inputTokenId,
                               outputToken = outputTokenId,
                               inputAmount = inputAmount',
                               expectedOutput = expectedOutput',
                               minimumOutput = string_of_int (apply_slippage quote),
                               priceImpact = ''0.5'',
                               est_pool = [digits_of poolId] \<rparr>))))"

text \<open>
  The message of the swap call, which \<open>JSON.stringify\<close> writes into the \<open>msg\<close>
  argument, and the arguments of the three calls.
\<close>

record swap_action =
  pool_id :: nat
  token_in :: string
  token_out :: string
  amount_in :: string
  min_amount_out :: string

record swap_msg =
  force :: nat
  referral_id :: "string option"
  msg_actions :: "swap_action list"

datatype call_args =
    NoArgs
  | StorageDepositArgs "string option" bool
  | FtTransferCallArgs string string swap_msg

text \<open>An action of a transaction (lib/near/types.ts).\<close>

datatype action =
    Transfer string
  | FunctionCall string call_args string string

record transaction =
  receiverId :: string
  actions :: "action list"

definition REF_CONTRACT_TESTNET :: string where
  "REF_CONTRACT_TESTNET = ''ref-finance-101.testnet''"

text \<open>
  \<open>generateSwapTransaction\<close> on testnet: wrap (when \<open>needsWrapping\<close>), storage deposit
  for the output token, then the swap call. Nothing catches its errors.
\<close>

definition generateSwapTransaction ::
  "dex_rpc \<Rightarrow> (string \<Rightarrow> string) \<Rightarrow> string \<Rightarrow> string \<Rightarrow> string \<Rightarrow> string \<Rightarrow>
   string option \<Rightarrow> bool \<Rightarrow> string option \<Rightarrow> js_error + transaction list" where
  "generateSwapTransaction rpc fullwide inputTokenId inputAmount' outputTokenId minimumOutput'
       accountId needsWrapping wrapAmount =
     (case findPool rpc inputTokenId outputTokenId of
        None \<Rightarrow> Inl (no_pool_error inputTokenId outputTokenId)
      | Some poolId \<Rightarrow>
          (case convertScientificToString fullwide inputAmount' of
             Inl e \<Rightarrow> Inl e
           | Inr inputAmountStr \<Rightarrow>
               (case convertScientificToString fullwide minimumOutput' of
                  Inl e \<Rightarrow> Inl e
                | Inr minimumOutputStr \<Rightarrow>
                    (let swapMsg = \<lparr> force = 0, referral_id = None,
                                     msg_actions =
                                       [\<lparr> pool_id = poolId, token_in = inputTokenId,
                                          token_out = outputTokenId, amount_in = inputAmountStr,
                                          min_amount_out = minimumOutputStr \<rparr>] \<rparr>;
                         wrapping =
                           (if needsWrapping
                            then [\<lparr> receiverId = inputTokenId,
                                    actions =
                                      [FunctionCall ''near_deposit'' NoArgs ''30000000000000''
                                         (case or_null wrapAmount of
                                            Some w \<Rightarrow> w
                                          | None \<Rightarrow> inputAmountStr)] \<rparr>]
                            else [])
                     in Inr (wrapping @
                          [\<lparr> receiverId = outputTokenId,
                             actions =
                               [FunctionCall ''storage_deposit''
                                  (StorageDepositArgs (or_null accountId) True)
                                  ''30000000000000'' ''1250000000000000000000''] \<rparr>,
                           \<lparr> receiverId = inputTokenId,
                             actions =
                               [FunctionCall ''ft_transfer_call''
                                  (FtTransferCallArgs REF_CONTRACT_TESTNET inputAmountStr swapMsg)
                                  ''180000000000000'' ''1''] \<rparr>])))))"

section \<open>Sorting as \<open>Array.prototype.sort\<close> does\<close>

text \<open>
  \<open>Array.prototype.sort\<close> is stable. With a comparator \<open>cmp\<close>, the model takes the
  relation \<open>le a b\<close> for \<open>cmp(a, b) \<le> 0\<close> (a comparator result that is NaN counts as
  0) and sorts by stable insertion.
\<close>

fun insert_by :: "('a \<Rightarrow> 'a \<Rightarrow> bool) \<Rightarrow> 'a \<Rightarrow> 'a list \<Rightarrow> 'a list" where
  "insert_by le x [] = [x]"
| "insert_by le x (y # ys) = (if le x y then x # y # ys else y # insert_by le x ys)"

definition js_sort :: "('a \<Rightarrow> 'a \<Rightarrow> bool) \<Rightarrow> 'a list \<Rightarrow> 'a list" where
  "js_sort le xs = foldr (insert_by le) xs []"

section \<open>Task planner (planAgentTasks)\<close>

record planned_task =
  type :: string
  description :: string
  order :: int





definition default_plan :: "planned_task list" where
  "default_plan =
     [\<lparr> type = ''fetch_tokens'',
        description = ''Fetch available tokens from Ref Finance testnet'', order = 1 \<rparr>,
      \<lparr> type = ''analyze_market'',
        description = ''Analyze token prices and market data using AI'', order = 2 \<rparr>,
      \<lparr> type = ''predict_token'',
        description = ''Predict the best token for investment'', order = 3 \<rparr>,
      \<lparr> type = ''prepare_swap'',
        description = ''Prepare swap transactions (wrap NEAR, approve, swap)'', order = 4 \<rparr>,
      \<lparr> type = ''execute_swap'',
        description = ''Sign and execute swap transaction on NEAR testnet'', order = 5 \<rparr>]"



section \<open>Token predictor (predictBestToken in the token analyzer)\<close>

record token_info =
  token_account_id :: string
  symbol :: string
  price :: string
  decimal :: nat

text \<open>
  The object that \<open>JSON.parse\<close> gives for the model's answer: any of the fields of a
  \<open>TokenPrediction\<close> may be missing. A failed model call, a \<open>SyntaxError\<close> of
  \<open>JSON.parse\<close> and a parsed null are the thrown error.
\<close>

record raw_prediction =
  raw_selectedToken :: "string option"
  raw_symbol :: "string option"
  raw_reasoning :: "string option"
  raw_confidence :: "rat option"
  raw_price :: "string option"

record token_prediction =
  selectedToken :: string
  pred_symbol :: string
  reasoning :: string
  confidence :: "rat option"
  pred_price :: string

text \<open>The predicate of \<open>tokens.find\<close>: the identifier is the contract id or the symbol.\<close>

definition matches :: "string \<Rightarrow> token_info \<Rightarrow> bool" where
  "matches ident t = (token_account_id t = ident \<or> symbol t = ident)"

text \<open>
  The \<open>try\<close> block after \<open>JSON.parse\<close>: the two required fields must be truthy (present
  and not empty), the identifier must match a catalog entry, and the first entry that
  matches overwrites \<open>selectedToken\<close>, \<open>symbol\<close> and \<open>price\<close>.
\<close>

definition predict_from_model :: "token_info list \<Rightarrow> js_error + raw_prediction \<Rightarrow> js_error + token_prediction" where
  "predict_from_model tokens reply =
     (case reply of
        Inl e \<Rightarrow> Inl e
      | Inr prediction \<Rightarrow>
          (case (raw_selectedToken prediction, raw_reasoning prediction) of
             (Some ident, Some why) \<Rightarrow>
               if ident = [] \<or> why = []
               then Inl (JsError ''Invalid prediction format: missing required fields'')
               else
                 (case find (matches ident) tokens of
                    None \<Rightarrow>
                      Inl (JsError (''Selected token \"'' @ ident @ ''\" not found in available tokens''))
                  | Some matchingToken \<Rightarrow>
                      Inr \<lparr> selectedToken = token_account_id matchingToken,
                            pred_symbol = symbol matchingToken,
                            reasoning = why,
                            confidence = raw_confidence prediction,
                            pred_price = price matchingToken \<rparr>)
           | _ \<Rightarrow> Inl (JsError ''Invalid prediction format: missing required fields'')))"

definition stablecoins :: "string list" where
  "stablecoins = [''usdt'', ''usdc'', ''dai'', ''usn'', ''busd'']"

definition fallback_suffix :: string where
  "fallback_suffix = '' This is a fallback selection due to AI analysis error.''"

text \<open>
  The choice of the \<open>catch\<close> block: \<open>fallbackToken\<close> starts as \<open>tokens[0]\<close>, which is
  undefined for an empty catalog, and a keyword of the goal may replace it.
\<close>

definition choose_fallback :: "token_info list \<Rightarrow> string \<Rightarrow> token_info option \<times> string" where
  "choose_fallback tokens agentGoal =
     (let first = (case tokens of [] \<Rightarrow> None | t # ts \<Rightarrow> Some t);
          first_reasoning = ''Selected based on highest price and liquidity.'' @ fallback_suffix;
          goalLower = toLowerCase agentGoal
      in if str_includes goalLower ''stable'' then
           (case find (\<lambda>t. list_ex (\<lambda>stable. str_includes (toLowerCase (symbol t)) stable) stablecoins)
                   tokens of
              Some stablecoin \<Rightarrow>
                (Some stablecoin,
                 ''Selected '' @ symbol stablecoin @
                 '' as a stable token based on user instruction for stable tokens.'' @ fallback_suffix)
            | None \<Rightarrow> (first, first_reasoning))
         else if str_includes goalLower ''btc'' \<or> str_includes goalLower ''bitcoin'' then
           (case find (\<lambda>t. str_includes (toLowerCase (symbol t)) ''btc'') tokens of
              Some btcToken \<Rightarrow>
                (Some btcToken,
                 ''Selected '' @ symbol btcToken @ '' based on user mention of BTC/Bitcoin.'' @
                 fallback_suffix)
            | None \<Rightarrow> (first, first_reasoning))
         else if str_includes goalLower ''eth'' \<or> str_includes goalLower ''ethereum'' then
           (case find (\<lambda>t. str_includes (toLowerCase (symbol t)) ''eth'') tokens of
              Some ethToken \<Rightarrow>
                (Some ethToken,
                 ''Selected '' @ symbol ethToken @ '' based on user mention of ETH/Ethereum.'' @
                 fallback_suffix)
            | None \<Rightarrow> (first, first_reasoning))
         else (first, first_reasoning))"

text \<open>
  The \<open>catch\<close> block: reading \<open>fallbackToken.symbol\<close> of an undefined token throws a
  \<open>TypeError\<close> out of \<open>predictBestToken\<close>.
\<close>

definition predict_fallback :: "token_info list \<Rightarrow> string \<Rightarrow> js_error + token_prediction" where
  "predict_fallback tokens agentGoal =
     (case choose_fallback tokens agentGoal of
        (None, fallbackReasoning) \<Rightarrow> Inl (JsError ''Cannot read properties of undefined'')
      | (Some fallbackToken, fallbackReasoning) \<Rightarrow>
          Inr \<lparr> selectedToken = token_account_id fallbackToken,
                pred_symbol = symbol fallbackToken,
                reasoning = fallbackReasoning,
                confidence = Some (1 / 2),
                pred_price = price fallbackToken \<rparr>)"

definition predictBestToken ::
  "token_info list \<Rightarrow> string \<Rightarrow> js_error + raw_prediction \<Rightarrow> js_error + token_prediction" where
  "predictBestToken tokens agentGoal reply =
     (case predict_from_model tokens reply of
        Inr prediction \<Rightarrow> Inr prediction
      | Inl e \<Rightarrow> predict_fallback tokens agentGoal)"

section \<open>Token catalog (fetchAvailableTokens and loadFallbackTokens in the token analyzer)\<close>

text \<open>
  \<open>parseFloat\<close> reads the price text as a double. The catalog only compares such
  values with each other and with 0, so the functions take the reading as a parameter
  \<open>parseFloat :: string \<Rightarrow> 'p option\<close> into any linear order with a zero; \<open>None\<close> is
  NaN, for which every comparison is false.
\<close>

text \<open>\<open>parseFloat(token.price) > 0\<close>.\<close>

definition positive_price :: "(string \<Rightarrow> 'p::{zero,linorder} option) \<Rightarrow> token_info \<Rightarrow> bool" where
  "positive_price parseFloat token =
     (case parseFloat (price token) of None \<Rightarrow> False | Some v \<Rightarrow> 0 < v)"

text \<open>
  The comparator \<open>(a, b) => parseFloat(b.price) - parseFloat(a.price)\<close> is at most 0
  when the price of \<open>b\<close> is at most the price of \<open>a\<close>; a NaN difference counts as 0.
\<close>

definition price_desc :: "(string \<Rightarrow> 'p::{zero,linorder} option) \<Rightarrow> token_info \<Rightarrow> token_info \<Rightarrow> bool" where
  "price_desc parseFloat a b =
     (case (parseFloat (price a), parseFloat (price b)) of
        (Some x, Some y) \<Rightarrow> y \<le> x
      | _ \<Rightarrow> True)"

text \<open>
  An entry of the indexer's answer, a map from contract id to \<open>{symbol, price,
  decimal}\<close>: a field may be missing, and the value itself may be null.
\<close>

record index_info =
  info_symbol :: "string option"
  info_price :: "string option"
  info_decimal :: "nat option"

definition upper_char :: "char \<Rightarrow> char" where
  "upper_char c =
     (case map_of (zip ''abcdefghijklmnopqrstuvwxyz'' ''ABCDEFGHIJKLMNOPQRSTUVWXYZ'') c of
        Some u \<Rightarrow> u
      | None \<Rightarrow> c)"

definition toUpperCase :: "string \<Rightarrow> string" where
  "toUpperCase s = map upper_char s"

text \<open>
  The callback of \<open>map\<close> in \<open>fetchAvailableTokens\<close>: \<open>info.symbol ||
  token_account_id.split(".")[0].toUpperCase()\<close>, \<open>info.price || "0"\<close> and
  \<open>info.decimal || 18\<close>; the empty string and 0 are falsy.
\<close>

definition token_of_entry :: "string \<Rightarrow> index_info \<Rightarrow> token_info" where
  "token_of_entry account info =
     \<lparr> token_account_id = account,
       symbol = (case info_symbol info of
                   None \<Rightarrow> toUpperCase (takeWhile (\<lambda>c. c \<noteq> CHR ''.'') account)
                 | Some s \<Rightarrow>
                     if s = [] then toUpperCase (takeWhile (\<lambda>c. c \<noteq> CHR ''.'') account) else s),
       price = (case info_price info of None \<Rightarrow> ''0'' | Some p \<Rightarrow> if p = [] then ''0'' else p),
       decimal = (case info_decimal info of None \<Rightarrow> 18 | Some d \<Rightarrow> if d = 0 then 18 else d) \<rparr>"

text \<open>\<open>Object.entries(data).map(...)\<close>: reading \<open>info.symbol\<close> of a null value throws.\<close>

fun map_entries :: "(string \<times> index_info option) list \<Rightarrow> js_error + token_info list" where
  "map_entries [] = Inr []"
| "map_entries ((account, None) # rest) = Inl (JsError ''Cannot read properties of null'')"
| "map_entries ((account, Some info) # rest) =
     (case map_entries rest of
        Inl e \<Rightarrow> Inl e
      | Inr tokens \<Rightarrow> Inr (token_of_entry account info # tokens))"

text \<open>
  The loop over \<open>allTokens.slice(0, 30)\<close>, from the tokens still to visit and the list
  \<open>tokensWithLiquidity\<close> so far: wNEAR is skipped, a token with a pool is pushed, and
  the loop breaks once 15 tokens are collected. \<open>hasLiquidity\<close> is the outcome of
  \<open>hasLiquidityPool\<close> for a contract id.
\<close>

fun collect_liquid :: "(string \<Rightarrow> bool) \<Rightarrow> token_info list \<Rightarrow> token_info list \<Rightarrow> token_info list" where
  "collect_liquid hasLiquidity [] tokensWithLiquidity = tokensWithLiquidity"
| "collect_liquid hasLiquidity (token # rest) tokensWithLiquidity =
     (if token_account_id token = WRAP_NEAR_TOKEN
      then collect_liquid hasLiquidity rest tokensWithLiquidity
      else
        (let pushed = (if hasLiquidity (token_account_id token)
                       then tokensWithLiquidity @ [token] else tokensWithLiquidity)
         in if length pushed \<ge> 15 then pushed else collect_liquid hasLiquidity rest pushed))"

definition builtin_tokens :: "token_info list" where
  "builtin_tokens =
     [\<lparr> token_account_id = ''wbtc.fakes.testnet'', symbol = ''WBTC'', price = ''101700'', decimal = 8 \<rparr>,
      \<lparr> token_account_id = ''usdt.fakes.testnet'', symbol = ''USDT.e'', price = ''0.999892'', decimal = 6 \<rparr>,
      \<lparr> token_account_id = ''dai.fakes.testnet'', symbol = ''DAI'', price = ''0.999892'', decimal = 18 \<rparr>]"

text \<open>
  \<open>loadFallbackTokens\<close>. The bundled file \<open>testnet-tokens-fallback.json\<close> is not among
  the sources: \<open>fallbackData\<close> is the outcome of importing it and mapping its entries to
  tokens, a thrown error or the list of its entries. The \<open>catch\<close> returns the built-in
  list.
\<close>

definition loadFallbackTokens ::
  "(string \<Rightarrow> 'p::{zero,linorder} option) \<Rightarrow> js_error + token_info list \<Rightarrow> token_info list" where
  "loadFallbackTokens parseFloat fallbackData =
     (case fallbackData of
        Inl e \<Rightarrow> builtin_tokens
      | Inr entries \<Rightarrow>
          take 15 (js_sort (price_desc parseFloat) (filter (positive_price parseFloat) entries)))"

text \<open>
  The \<open>try\<close> block of \<open>fetchAvailableTokens\<close>. \<open>indexer\<close> is the outcome of the fetch
  with \<open>response.json()\<close>: a thrown error (also for a response that is not ok) or the
  entries of the answer.
\<close>

definition fetch_live ::
  "(string \<Rightarrow> 'p::{zero,linorder} option) \<Rightarrow> (string \<Rightarrow> bool) \<Rightarrow>
   js_error + (string \<times> index_info option) list \<Rightarrow> js_error + token_info list" where
  "fetch_live parseFloat hasLiquidity indexer =
     (case indexer of
        Inl e \<Rightarrow> Inl e
      | Inr data \<Rightarrow>
          (case map_entries data of
             Inl e \<Rightarrow> Inl e
           | Inr mapped \<Rightarrow>
               (let allTokens = js_sort (price_desc parseFloat)
                                  (filter (positive_price parseFloat) mapped)
                in Inr (collect_liquid hasLiquidity (take 30 allTokens) []))))"

definition fetchAvailableTokens ::
  "(string \<Rightarrow> 'p::{zero,linorder} option) \<Rightarrow> (string \<Rightarrow> bool) \<Rightarrow>
   js_error + (string \<times> index_info option) list \<Rightarrow> js_error + token_info list \<Rightarrow> token_info list" where
  "fetchAvailableTokens parseFloat hasLiquidity indexer fallbackData =
     (case fetch_live parseFloat hasLiquidity indexer of
        Inl e \<Rightarrow> loadFallbackTokens parseFloat fallbackData
      | Inr tokensWithLiquidity \<Rightarrow>
          if length tokensWithLiquidity = 0
          then loadFallbackTokens parseFloat fallbackData
          else tokensWithLiquidity)"

text \<open>
  The list is sorted by descending price, every price being a number: of two entries,
  the later one's price is at most the earlier one's.
\<close>

definition sorted_by_price_desc :: "(string \<Rightarrow> 'p::{zero,linorder} option) \<Rightarrow> token_info list \<Rightarrow> bool" where
  "sorted_by_price_desc parseFloat tokens =
     sorted_wrt
       (\<lambda>a b. case (parseFloat (price a), parseFloat (price b)) of
                 (Some x, Some y) \<Rightarrow> y \<le> x
               | _ \<Rightarrow> False)
       tokens"

section \<open>Swap executor (executeTokenSwap)\<close>

record SwapResult =
  success :: bool
  transactionHash :: "string option"
  error :: "string option"
  amountSwapped :: "string option"

text \<open>
  What \<open>provider.txStatus(txHash, accountId, "FINAL")\<close> gives at one attempt: a status
  object with the key \<open>SuccessValue\<close>, any other answer, or a thrown error (the
  transaction is not yet known), which the loop catches.
\<close>

datatype tx_status = SuccessValue | OtherStatus | StatusThrows

text \<open>
  The network as one run of \<open>executeTokenSwap\<close> sees it: the outcome of every awaited
  call, in the order of the code. The calls of the submission loop are indexed by the
  position \<open>i\<close> of the transaction, the status polls also by the attempt.
\<close>

record near_env =
  connect_account :: "js_error option"
  parseNearAmount :: "string \<Rightarrow> js_error + string option"
  send_near_deposit :: "js_error + string"
  ft_balance_of :: "js_error + string"
  estimate_rpc :: dex_rpc
  estimate_get_return :: get_return_call
  generate_rpc :: dex_rpc
  fullwide_text :: "string \<Rightarrow> string"
  signAndSendTransaction :: "nat \<Rightarrow> js_error + string"
  txStatus :: "nat \<Rightarrow> nat \<Rightarrow> tx_status"

definition NEAR_TOKEN :: string where
  "NEAR_TOKEN = ''wrap.testnet''"

text \<open>
  \<open>tx.actions.map(...)\<close>: a function call is converted, with \<open>BigInt\<close> of its gas and
  deposit; any other action throws.
\<close>

fun convert_actions :: "action list \<Rightarrow> js_error + (string \<times> call_args \<times> int \<times> int) list" where
  "convert_actions [] = Inr []"
| "convert_actions (Transfer deposit' # rest) = Inl (JsError ''Unsupported action type: Transfer'')"
| "convert_actions (FunctionCall methodName args gas deposit' # rest) =
     (case (BigInt gas, BigInt deposit') of
        (Some g, Some d) \<Rightarrow>
          (case convert_actions rest of
             Inl e \<Rightarrow> Inl e
           | Inr converted \<Rightarrow> Inr ((methodName, args, g, d) # converted))
      | _ \<Rightarrow> Inl (JsError ''Cannot convert to a BigInt''))"

text \<open>
  The polling loop \<open>while (attempts < maxAttempts)\<close>: a success status breaks, any
  other outcome waits a second and counts the attempt. The result is the value of
  \<open>attempts\<close> after the loop. The waiting itself is not modelled.
\<close>

function poll_finality :: "(nat \<Rightarrow> tx_status) \<Rightarrow> nat \<Rightarrow> nat \<Rightarrow> nat" where
  "poll_finality status_at maxAttempts attempts =
     (if attempts < maxAttempts then
        (if status_at attempts = SuccessValue then attempts
         else poll_finality status_at maxAttempts (Suc attempts))
      else attempts)"
  by pat_completeness auto
termination
  by (relation "measure (\<lambda>(status_at, maxAttempts, attempts). maxAttempts - attempts)") auto

definition not_finalized :: "string \<Rightarrow> js_error" where
  "not_finalized txHash = JsError (''Transaction '' @ txHash @ '' did not finalize in time'')"

text \<open>
  The loop \<open>for (let i = 0; i < transactions.length; i++)\<close>, from the transaction at
  position \<open>i\<close> on: \<open>rest \<noteq> []\<close> is \<open>i < transactions.length - 1\<close>. Besides the outcome
  (the thrown error, or \<open>txHashes\<close>) the model counts the calls of
  \<open>account.signAndSendTransaction\<close> that the loop has made.
\<close>

fun submit_all ::
  "near_env \<Rightarrow> nat \<Rightarrow> transaction list \<Rightarrow> string list \<Rightarrow> nat \<Rightarrow> nat \<times> (js_error + string list)" where
  "submit_all env i [] txHashes sent = (sent, Inr txHashes)"
| "submit_all env i (tx # rest) txHashes sent =
     (case convert_actions (actions tx) of
        Inl e \<Rightarrow> (sent, Inl e)
      | Inr converted \<Rightarrow>
          (case signAndSendTransaction env i of
             Inl e \<Rightarrow> (Suc sent, Inl e)
           | Inr txHash \<Rightarrow>
               if rest \<noteq> [] \<and> poll_finality (txStatus env i) 30 0 \<ge> 30
               then (Suc sent, Inl (not_finalized txHash))
               else submit_all env (Suc i) rest (txHashes @ [txHash]) (Suc sent)))"

text \<open>
  The \<open>try\<close> block up to the loop: the key store and connection, the amount to wrap,
  the wrap transaction, the read of the wNEAR balance (used as the swap amount), the
  log line of line 112, the estimate and the transaction list with
  \<open>needsWrapping = false\<close>. The log line prints
  \<open>utils.format.formatNearAmount(wNearBalance)\<close>, which reads the balance with \<open>BigInt\<close>
  and so throws on a balance text that \<open>BigInt\<close> cannot read.
\<close>

definition prepare_swap ::
  "near_env \<Rightarrow> string \<Rightarrow> token_prediction \<Rightarrow> string \<Rightarrow> js_error + string \<times> transaction list" where
  "prepare_swap env accountId prediction amountInNear =
     (case connect_account env of
        Some e \<Rightarrow> Inl e
      | None \<Rightarrow>
     (case parseNearAmount env amountInNear of
        Inl e \<Rightarrow> Inl e
      | Inr parsed \<Rightarrow>
     (case or_null parsed of
        None \<Rightarrow> Inl (JsError ''Invalid NEAR amount'')
      | Some wrapAmount \<Rightarrow>
     (case BigInt wrapAmount of
        None \<Rightarrow> Inl (JsError ''Cannot convert to a BigInt'')
      | Some yocto \<Rightarrow>
     (case send_near_deposit env of
        Inl e \<Rightarrow> Inl e
      | Inr wrapHash \<Rightarrow>
     (case ft_balance_of env of
        Inl e \<Rightarrow> Inl e
      | Inr wNearBalance \<Rightarrow>
     (case BigInt wNearBalance of
        None \<Rightarrow> Inl (JsError ''Cannot convert to a BigInt'')
      | Some shown \<Rightarrow>
     (let swapAmount = wNearBalance in
     (case estimateSwap (estimate_rpc env) (estimate_get_return env) (fullwide_text env)
             NEAR_TOKEN swapAmount (selectedToken prediction) of
        Inl e \<Rightarrow> Inl e
      | Inr estimate \<Rightarrow>
     (case generateSwapTransaction (generate_rpc env) (fullwide_text env)
             NEAR_TOKEN swapAmount (selectedToken prediction) (minimumOutput estimate)
             (Some accountId) False None of
        Inl e \<Rightarrow> Inl e
      | Inr transactions \<Rightarrow> Inr (wrapHash, transactions)))))))))))"

text \<open>The whole \<open>try\<close> block, with the number of calls the loop has sent.\<close>

definition executeTokenSwap_body ::
  "near_env \<Rightarrow> string \<Rightarrow> token_prediction \<Rightarrow> string \<Rightarrow> nat \<times> (js_error + SwapResult)" where
  "executeTokenSwap_body env accountId prediction amountInNear =
     (case prepare_swap env accountId prediction amountInNear of
        Inl e \<Rightarrow> (0, Inl e)
      | Inr (wrapHash, transactions) \<Rightarrow>
          (case submit_all env 0 transactions [wrapHash] 0 of
             (sent, Inl e) \<Rightarrow> (sent, Inl e)
           | (sent, Inr txHashes) \<Rightarrow>
               (sent, Inr \<lparr> success = True,
                            transactionHash = Some (last txHashes),
                            error = None,
                            amountSwapped = Some amountInNear \<rparr>)))"

text \<open>\<open>executeTokenSwap\<close>: the \<open>catch\<close> turns any thrown error into a failure result.\<close>

definition executeTokenSwap :: "near_env \<Rightarrow> string \<Rightarrow> token_prediction \<Rightarrow> string \<Rightarrow> SwapResult" where
  "executeTokenSwap env accountId prediction amountInNear =
     (case snd (executeTokenSwap_body env accountId prediction amountInNear) of
        Inr result \<Rightarrow> result
      | Inl e \<Rightarrow> \<lparr> success = False, transactionHash = None,
                    error = Some (error_message e), amountSwapped = None \<rparr>)"

definition loop_calls_sent :: "near_env \<Rightarrow> string \<Rightarrow> token_prediction \<Rightarrow> string \<Rightarrow> nat" where
  "loop_calls_sent env accountId prediction amountInNear =
     fst (executeTokenSwap_body env accountId prediction amountInNear)"

section \<open>Agent orchestrator (executeAgent)\<close>

record agent =
  agent_accountId :: string
  agent_description :: "string option"
  agent_status :: string
  decryptedPrivateKey :: string

text \<open>The snapshots that \<open>executeAgent\<close> writes to the ledger.\<close>

datatype snapshot =
    PlanInput "string option" string
  | PlanOutput "planned_task list"
  | FetchOutput nat "token_info list"
  | PredictInput nat
  | PredictOutput token_prediction
  | SwapInput string string string
  | SwapOutput SwapResult

text \<open>
  What one run of \<open>executeAgent\<close> gets from the modules it awaits: the agent lookup and
  the balance read may throw; \<open>planAgentTasks\<close>, \<open>fetchAvailableTokens\<close> and
  \<open>executeTokenSwap\<close> catch their errors and always return; \<open>predictBestToken\<close> may
  throw. The amount read from the description by regular expressions and \<open>parseFloat\<close>
  is the function \<open>extract_amount\<close> of the description and the balance. The ledger is
  the table of the previous section; its calls do not fail.
\<close>

record agent_env =
  getAgentWithPrivateKey :: "js_error + agent option"
  fetchAccountBalance :: "js_error + string"
  plan_result :: "planned_task list"
  tokens_result :: "token_info list"
  prediction_result :: "js_error + token_prediction"
  extract_amount :: "string \<Rightarrow> string \<Rightarrow> string"
  swap_result :: SwapResult

record ExecutionResult =
  exec_success :: bool
  taskIds :: "nat list"
  exec_error :: "string option"

text \<open>\<open>createTask\<close> followed by \<open>updateTask(id, {status: 'running'})\<close>.\<close>

definition start_task ::
  "snapshot ledger \<Rightarrow> nat \<Rightarrow> snapshot create_task_data \<Rightarrow> nat \<times> snapshot ledger" where
  "start_task db now data =
     (let (task, db1) = createTask db now data;
          (updated, db2) = updateTask db1 now (task_id task)
              \<lparr> upd_taskOutput = None, upd_status = Running,
                upd_errorMessage = None, upd_completedAt = None \<rparr>
      in (task_id task, db2))"

definition complete_task :: "snapshot ledger \<Rightarrow> nat \<Rightarrow> nat \<Rightarrow> snapshot \<Rightarrow> snapshot ledger" where
  "complete_task db now taskId output =
     snd (updateTask db now taskId
       \<lparr> upd_taskOutput = Some output, upd_status = Completed,
         upd_errorMessage = None, upd_completedAt = None \<rparr>)"

definition or_text :: "string option \<Rightarrow> string \<Rightarrow> string" where
  "or_text x dflt = (case or_null x of None \<Rightarrow> dflt | Some s \<Rightarrow> s)"

text \<open>
  The \<open>try\<close> block: the ledger and \<open>taskIds\<close> when it ends, and the thrown error if it
  ends by one (\<open>None\<close>: it reached \<open>return { success: true, taskIds }\<close>).
\<close>

definition executeAgent_try ::
  "agent_env \<Rightarrow> nat \<Rightarrow> string \<Rightarrow> snapshot ledger \<Rightarrow> (snapshot ledger \<times> nat list) \<times> js_error option" where
  "executeAgent_try env now agentId' db =
     (case getAgentWithPrivateKey env of
        Inl e \<Rightarrow> ((db, []), Some e)
      | Inr None \<Rightarrow> ((db, []), Some (JsError ''Agent not found''))
      | Inr (Some agent) \<Rightarrow>
          if agent_status agent \<noteq> ''active''
          then ((db, []), Some (JsError ''Agent is not active''))
          else
            (case fetchAccountBalance env of
               Inl e \<Rightarrow> ((db, []), Some e)
             | Inr balance \<Rightarrow>
                 (let (planTask, db1) = start_task db now
                        \<lparr> new_agentId = agentId', new_taskType = ''plan_tasks'',
                          new_taskDescription = ''Analyze agent description and create task plan'',
                          new_taskInput = Some (PlanInput (agent_description agent) balance) \<rparr>;
                      db2 = complete_task db1 now planTask (PlanOutput (plan_result env));
                      (fetchTask, db3) = start_task db2 now
                        \<lparr> new_agentId = agentId', new_taskType = ''fetch_tokens'',
                          new_taskDescription = ''Fetch available tokens from Ref Finance'',
                          new_taskInput = None \<rparr>;
                      tokens = tokens_result env;
                      db4 = complete_task db3 now fetchTask
                              (FetchOutput (length tokens) (take 10 tokens));
                      (predictTask, db5) = start_task db4 now
                        \<lparr> new_agentId = agentId', new_taskType = ''predict_token'',
                          new_taskDescription = ''Use AI to analyze tokens and predict best investment'',
                          new_taskInput = Some (PredictInput (length tokens)) \<rparr>
                  in case prediction_result env of
                       Inl e \<Rightarrow> ((db5, [planTask, fetchTask, predictTask]), Some e)
                     | Inr prediction \<Rightarrow>
                         (let db6 = complete_task db5 now predictTask (PredictOutput prediction);
                              swapAmount = extract_amount env (or_text (agent_description agent) [])
                                             balance;
                              (swapTask, db7) = start_task db6 now
                                \<lparr> new_agentId = agentId', new_taskType = ''execute_swap'',
                                  new_taskDescription =
                                    ''Swap '' @ swapAmount @ '' NEAR for '' @ pred_symbol prediction,
                                  new_taskInput =
                                    Some (SwapInput (selectedToken prediction)
                                            (pred_symbol prediction) swapAmount) \<rparr>;
                              swapResult = swap_result env;
                              db8 =
                                (if success swapResult
                                 then complete_task db7 now swapTask (SwapOutput swapResult)
                                 else snd (updateTask db7 now swapTask
                                        \<lparr> upd_taskOutput = Some (SwapOutput swapResult),
                                          upd_status = Failed,
                                          upd_errorMessage = error swapResult,
                                          upd_completedAt = None \<rparr>))
                          in ((db8, [planTask, fetchTask, predictTask, swapTask]), None)))))"

text \<open>
  The loop of the \<open>catch\<close> block: every task of \<open>taskIds\<close> that is still running is
  marked failed with the message of the error.
\<close>

fun fail_running :: "snapshot ledger \<Rightarrow> nat \<Rightarrow> string \<Rightarrow> nat list \<Rightarrow> snapshot ledger" where
  "fail_running db now message [] = db"
| "fail_running db now message (taskId # rest) =
     (case getTask db taskId of
        None \<Rightarrow> fail_running db now message rest
      | Some task \<Rightarrow>
          if status task = Running
          then fail_running
                 (snd (updateTask db now taskId
                    \<lparr> upd_taskOutput = None, upd_status = Failed,
                      upd_errorMessage = Some message, upd_completedAt = None \<rparr>))
                 now message rest
          else fail_running db now message rest)"

definition executeAgent ::
  "agent_env \<Rightarrow> nat \<Rightarrow> string \<Rightarrow> snapshot ledger \<Rightarrow> ExecutionResult \<times> snapshot ledger" where
  "executeAgent env now agentId' db =
     (case executeAgent_try env now agentId' db of
        ((db', ids), None) \<Rightarrow>
          (\<lparr> exec_success = True, taskIds = ids, exec_error = None \<rparr>, db')
      | ((db', ids), Some e) \<Rightarrow>
          (\<lparr> exec_success = False, taskIds = ids, exec_error = Some (error_message e) \<rparr>,
           fail_running db' now (error_message e) ids))"

section \<open>Properties of the ledger\<close>

lemma set_columns_inv:
  "upd_completedAt data = None \<Longrightarrow> completedAt_iff_terminal (set_columns now data row)"
  by (simp add: completedAt_iff_terminal_def set_columns_def)

lemma createTask_inv:
  "list_all completedAt_iff_terminal db \<Longrightarrow>
   list_all completedAt_iff_terminal (snd (createTask db now data))"
  by (simp add: createTask_def Let_def completedAt_iff_terminal_def)

lemma updateTask_inv:
  "upd_completedAt data = None \<Longrightarrow> list_all completedAt_iff_terminal db \<Longrightarrow>
   list_all completedAt_iff_terminal (snd (updateTask db now taskId data))"
  by (induction db) (simp_all add: updateTask_def Let_def set_columns_inv)

lemma apply_ledger_op_inv:
  "no_explicit_completedAt c \<Longrightarrow> list_all completedAt_iff_terminal db \<Longrightarrow>
   list_all completedAt_iff_terminal (apply_ledger_op db c)"
proof (cases c)
  case (Pair now op)
  assume ok: "no_explicit_completedAt c" and inv: "list_all completedAt_iff_terminal db"
  show ?thesis
  proof (cases op)
    case (CreateTask data)
    with Pair inv show ?thesis by (simp add: createTask_inv)
  next
    case (UpdateTask taskId data)
    with Pair ok inv show ?thesis by (simp add: updateTask_inv)
  qed
qed

lemma run_ledger_ops_inv:
  "list_all no_explicit_completedAt cs \<Longrightarrow> list_all completedAt_iff_terminal db \<Longrightarrow>
   list_all completedAt_iff_terminal (run_ledger_ops db cs)"
  by (induction cs arbitrary: db) (simp_all add: apply_ledger_op_inv)

lemma updateTask_returned_row:
  assumes "updateTask db now taskId data = (Some row, db')"
  shows "\<exists>old. old \<in> set db \<and> task_id old = taskId \<and> row = set_columns now data old"
proof -
  from assms have "find (\<lambda>r. task_id r = taskId)
      (map (\<lambda>r. if task_id r = taskId then set_columns now data r else r) db) = Some row"
    by (auto simp: updateTask_def Let_def)
  then show ?thesis
  proof (induction db)
    case Nil
    then show ?case by simp
  next
    case (Cons a db)
    show ?case
    proof (cases "task_id a = taskId")
      case True
      with Cons.prems have "row = set_columns now data a"
        by (simp add: set_columns_def)
      with True show ?thesis by auto
    next
      case False
      with Cons show ?thesis by auto
    qed
  qed
qed

text \<open>
  C9. \<open>createTask\<close> yields a row with status pending and no \<open>completedAt\<close>. When the
  caller gives no \<open>completedAt\<close>, the row that \<open>updateTask\<close> returns carries the new
  status and has \<open>completedAt\<close> set if and only if that status is completed or failed;
  and after any history of such calls from the empty table, every row of the table has
  \<open>completedAt\<close> set if and only if its status is completed or failed.
\<close>

theorem ledger_completedAt_iff_terminal:
  "status (fst (createTask db now data)) = Pending \<and>
   completedAt (fst (createTask db now data)) = None \<and>
   (upd_completedAt upd = None \<and> updateTask db now taskId upd = (Some row, db') \<longrightarrow>
      status row = upd_status upd \<and>
      ((completedAt row \<noteq> None) = (status row = Completed \<or> status row = Failed))) \<and>
   (list_all no_explicit_completedAt cs \<longrightarrow>
      (\<forall>r \<in> set (run_ledger_ops [] cs).
         (completedAt r \<noteq> None) = (status r = Completed \<or> status r = Failed)))"
proof (intro conjI impI)
  show "status (fst (createTask db now data)) = Pending"
    by (simp add: createTask_def Let_def)
  show "completedAt (fst (createTask db now data)) = None"
    by (simp add: createTask_def Let_def)
next
  assume a: "upd_completedAt upd = None \<and> updateTask db now taskId upd = (Some row, db')"
  then obtain old where row: "row = set_columns now upd old"
    using updateTask_returned_row by blast
  show "status row = upd_status upd"
    by (simp add: row set_columns_def)
  from a have "completedAt_iff_terminal row"
    unfolding row by (simp add: set_columns_inv)
  then show "(completedAt row \<noteq> None) = (status row = Completed \<or> status row = Failed)"
    by (simp add: completedAt_iff_terminal_def)
next
  assume "list_all no_explicit_completedAt cs"
  then have "list_all completedAt_iff_terminal (run_ledger_ops [] cs)"
    by (simp add: run_ledger_ops_inv)
  then show "\<forall>r \<in> set (run_ledger_ops [] cs).
      (completedAt r \<noteq> None) = (status r = Completed \<or> status r = Failed)"
    by (simp add: list_all_iff completedAt_iff_terminal_def)
qed

theorem ledger_completedAt_iff_terminal_witness:
  "upd_completedAt \<lparr> upd_taskOutput = (None :: string option), upd_status = Completed,
                       upd_errorMessage = None, upd_completedAt = None \<rparr> = None \<and>
   updateTask
     (snd (createTask [] 10
        \<lparr> new_agentId = ''a1'', new_taskType = ''plan_tasks'',
          new_taskDescription = ''plan'', new_taskInput = (None :: string option) \<rparr>))
     11 0
     \<lparr> upd_taskOutput = (None :: string option), upd_status = Completed,
       upd_errorMessage = None, upd_completedAt = None \<rparr> =
     (Some \<lparr> task_id = 0, agentId = ''a1'', taskType = ''plan_tasks'',
             taskDescription = ''plan'', taskInput = (None :: string option), taskOutput = None,
             status = Completed, errorMessage = None, startedAt = 10,
             completedAt = Some 11, createdAt = 10 \<rparr>,
      [\<lparr> task_id = 0, agentId = ''a1'', taskType = ''plan_tasks'',
         taskDescription = ''plan'', taskInput = (None :: string option), taskOutput = None,
         status = Completed, errorMessage = None, startedAt = 10,
         completedAt = Some 11, createdAt = 10 \<rparr>]) \<and>
   list_all no_explicit_completedAt
     [(10, CreateTask \<lparr> new_agentId = ''a1'', new_taskType = ''plan_tasks'',
                        new_taskDescription = ''plan'', new_taskInput = (None :: string option) \<rparr>),
      (11, UpdateTask 0 \<lparr> upd_taskOutput = (None :: string option), upd_status = Running,
                          upd_errorMessage = None, upd_completedAt = None \<rparr>)] \<and>
   map status
     (run_ledger_ops []
       [(10, CreateTask \<lparr> new_agentId = ''a1'', new_taskType = ''plan_tasks'',
                          new_taskDescription = ''plan'', new_taskInput = (None :: string option) \<rparr>),
        (11, UpdateTask 0 \<lparr> upd_taskOutput = (None :: string option), upd_status = Running,
                            upd_errorMessage = None, upd_completedAt = None \<rparr>)]) = [Running] \<and>
   map completedAt
     (run_ledger_ops []
       [(10, CreateTask \<lparr> new_agentId = ''a1'', new_taskType = ''plan_tasks'',
                          new_taskDescription = ''plan'', new_taskInput = (None :: string option) \<rparr>),
        (11, UpdateTask 0 \<lparr> upd_taskOutput = (None :: string option), upd_status = Running,
                            upd_errorMessage = None, upd_completedAt = None \<rparr>)]) = [None]"
  using ledger_completedAt_iff_terminal
    [of "[]" 10
        "\<lparr> new_agentId = ''a1'', new_taskType = ''plan_tasks'',
           new_taskDescription = ''plan'', new_taskInput = (None :: string option) \<rparr>"
        "\<lparr> upd_taskOutput = (None :: string option), upd_status = Completed,
           upd_errorMessage = None, upd_completedAt = None \<rparr>"]
  by (simp add: updateTask_def createTask_def set_columns_def Let_def)

section \<open>Properties of liquidity discovery\<close>

lemma first_match_shift: "first_match P xs j = map_option (\<lambda>k. k + j) (first_match P xs 0)"
proof (induction xs arbitrary: j)
  case Nil
  then show ?case by simp
next
  case (Cons p ps)
  show ?case
  proof (cases "P p")
    case True
    then show ?thesis by simp
  next
    case False
    have "first_match P ps (Suc j) = map_option (\<lambda>k. k + Suc j) (first_match P ps 0)"
      by (rule Cons.IH)
    moreover have "first_match P ps (Suc 0) = map_option (\<lambda>k. k + Suc 0) (first_match P ps 0)"
      by (rule Cons.IH)
    ultimately show ?thesis using False by (simp add: option.map_comp comp_def)
  qed
qed

lemma first_match_None: "(first_match P xs j = None) = (\<forall>x \<in> set xs. \<not> P x)"
  by (induction xs arbitrary: j) auto

lemma first_match_Some:
  "(first_match P xs 0 = Some k) = (k < length xs \<and> P (xs ! k) \<and> (\<forall>j < k. \<not> P (xs ! j)))"
proof (induction xs arbitrary: k)
  case Nil
  then show ?case by simp
next
  case (Cons p ps)
  show ?case
  proof (cases "P p")
    case True
    then show ?thesis by (cases k) auto
  next
    case False
    have sh: "first_match P ps (Suc 0) = map_option Suc (first_match P ps 0)"
      using first_match_shift [of P ps "Suc 0"] by simp
    show ?thesis
    proof (cases k)
      case 0
      with False sh show ?thesis by auto
    next
      case (Suc k')
      have "(first_match P ps 0 = Some k') =
            (k' < length ps \<and> P (ps ! k') \<and> (\<forall>j < k'. \<not> P (ps ! j)))"
        by (rule Cons.IH)
      moreover have "(\<forall>j < Suc k'. \<not> P ((p # ps) ! j)) = (\<forall>j < k'. \<not> P (ps ! j))"
        using False by (auto simp: less_Suc_eq_0_disj)
      ultimately show ?thesis using False sh Suc by auto
    qed
  qed
qed

lemma scan_registry_no_error: "scan_pools (registry_rpc reg) P bound i \<noteq> Inl e"
proof (induction "registry_rpc reg" P bound i rule: scan_pools.induct)
  case (1 P bound i)
  show ?case
  proof (cases "i < bound")
    case False
    then show ?thesis by simp
  next
    case True
    show ?thesis
    proof (cases "first_match P (take 100 (drop i reg)) 0")
      case None
      with True 1 show ?thesis by (simp add: registry_rpc_def)
    next
      case (Some j)
      with True show ?thesis by (simp add: registry_rpc_def)
    qed
  qed
qed


lemma scan_registry_Some:
  "scan_pools (registry_rpc reg) P bound i = Inr (Some k) \<Longrightarrow>
   k < length reg \<and> P (reg ! k) \<and> (\<forall>j. i \<le> j \<and> j < k \<longrightarrow> \<not> P (reg ! j)) \<and>
   (\<exists>b. i \<le> b \<and> b < bound \<and> 100 dvd (b - i) \<and> b \<le> k \<and> k < b + 100)"
proof (induction "registry_rpc reg" P bound i rule: scan_pools.induct)
  case (1 P bound i)
  from "1.prems" have lt: "i < bound"
    by (auto split: if_splits)
  let ?page = "take 100 (drop i reg)"
  have page: "get_pools (registry_rpc reg) i 100 = Inr ?page"
    by (simp add: registry_rpc_def)
  show ?case
  proof (cases "first_match P ?page 0")
    case (Some j)
    with lt page "1.prems" have k: "k = i + j" by simp
    have "j < length ?page \<and> P (?page ! j) \<and> (\<forall>j' < j. \<not> P (?page ! j'))"
      using Some first_match_Some [of P ?page j] by blast
    then have j1: "j < length ?page" and j2: "P (?page ! j)"
      and j3: "\<forall>j' < j. \<not> P (?page ! j')"
      by blast+
    from j1 have j100: "j < 100" and jlen: "i + j < length reg"
      by auto
    have nth: "?page ! j' = reg ! (i + j')" if "j' \<le> j" for j'
    proof -
      from that j100 have "j' < 100" by simp
      moreover from that jlen have "i + j' \<le> length reg" by simp
      ultimately show ?thesis by simp
    qed
    have c1: "k < length reg" using jlen k by simp
    have c2: "P (reg ! k)" using j2 nth [of j] k by simp
    have c3: "\<forall>j'. i \<le> j' \<and> j' < k \<longrightarrow> \<not> P (reg ! j')"
    proof (intro allI impI)
      fix j' assume a: "i \<le> j' \<and> j' < k"
      then have lt': "j' - i < j" using k by linarith
      with j3 have "\<not> P (?page ! (j' - i))" by blast
      moreover have "?page ! (j' - i) = reg ! (i + (j' - i))"
        using nth [of "j' - i"] lt' by simp
      moreover have "i + (j' - i) = j'" using a by simp
      ultimately show "\<not> P (reg ! j')" by simp
    qed
    have "i \<le> i \<and> i < bound \<and> 100 dvd (i - i) \<and> i \<le> k \<and> k < i + 100"
      using lt k j100 by simp
    then have c4: "\<exists>b. i \<le> b \<and> b < bound \<and> 100 dvd (b - i) \<and> b \<le> k \<and> k < b + 100"
      by (rule exI)
    from c1 c2 c3 c4 show ?thesis by (intro conjI)
  next
    case None
    with lt page "1.prems" have rec: "scan_pools (registry_rpc reg) P bound (i + 100) = Inr (Some k)"
      by simp
    have ih: "k < length reg \<and> P (reg ! k) \<and>
      (\<forall>j. i + 100 \<le> j \<and> j < k \<longrightarrow> \<not> P (reg ! j)) \<and>
      (\<exists>b. i + 100 \<le> b \<and> b < bound \<and> 100 dvd (b - (i + 100)) \<and> b \<le> k \<and> k < b + 100)"
      by (rule "1.hyps" [OF lt page None rec])
    then have c1: "k < length reg" and c2: "P (reg ! k)"
      and ih3: "\<forall>j. i + 100 \<le> j \<and> j < k \<longrightarrow> \<not> P (reg ! j)"
      by blast+
    from ih obtain b where
      b: "i + 100 \<le> b" "b < bound" "100 dvd (b - (i + 100))" "b \<le> k" "k < b + 100"
      by blast
    from None have none: "\<forall>x \<in> set ?page. \<not> P x"
      by (simp only: first_match_None)
    have c3: "\<forall>j. i \<le> j \<and> j < k \<longrightarrow> \<not> P (reg ! j)"
    proof (intro allI impI)
      fix j assume a: "i \<le> j \<and> j < k"
      show "\<not> P (reg ! j)"
      proof (cases "j < i + 100")
        case True
        from a c1 have jl: "j < length reg" by simp
        with a True have "j - i < length ?page" by auto
        then have "?page ! (j - i) \<in> set ?page" by (rule nth_mem)
        moreover have "?page ! (j - i) = reg ! j" using a True jl by simp
        ultimately show ?thesis using none by auto
      next
        case False
        with a ih3 show ?thesis by simp
      qed
    qed
    have eq: "(b - (i + 100)) + 100 = b - i" using b(1) by linarith
    have "100 dvd ((b - (i + 100)) + 100)" using b(3) by simp
    then have "100 dvd (b - i)" by (simp only: eq)
    with b have "i \<le> b \<and> b < bound \<and> 100 dvd (b - i) \<and> b \<le> k \<and> k < b + 100"
      by simp
    then have c4: "\<exists>b. i \<le> b \<and> b < bound \<and> 100 dvd (b - i) \<and> b \<le> k \<and> k < b + 100"
      by (rule exI)
    from c1 c2 c3 c4 show ?thesis by (intro conjI)
  qed
qed

lemma scan_registry_None:
  "scan_pools (registry_rpc reg) P bound i = Inr None \<Longrightarrow>
   \<forall>j. i \<le> j \<and> j < bound \<and> j < length reg \<longrightarrow> \<not> P (reg ! j)"
proof (induction "registry_rpc reg" P bound i rule: scan_pools.induct)
  case (1 P bound i)
  show ?case
  proof (cases "i < bound")
    case False
    then show ?thesis by auto
  next
    case lt: True
    let ?page = "take 100 (drop i reg)"
    have page: "get_pools (registry_rpc reg) i 100 = Inr ?page"
      by (simp add: registry_rpc_def)
    show ?thesis
    proof (cases "first_match P ?page 0")
      case (Some j)
      with lt page "1.prems" show ?thesis by simp
    next
      case None
      with lt page "1.prems" have rec: "scan_pools (registry_rpc reg) P bound (i + 100) = Inr None"
        by simp
      from "1.hyps" [OF lt page None rec]
      have ih: "\<forall>j. i + 100 \<le> j \<and> j < bound \<and> j < length reg \<longrightarrow> \<not> P (reg ! j)" .
      from None have none: "\<forall>x \<in> set ?page. \<not> P x"
        by (simp add: first_match_None)
      show ?thesis
      proof (intro allI impI)
        fix j assume a: "i \<le> j \<and> j < bound \<and> j < length reg"
        show "\<not> P (reg ! j)"
        proof (cases "j < i + 100")
          case True
          with a have "j - i < length ?page" by auto
          then have "?page ! (j - i) \<in> set ?page" by (rule nth_mem)
          moreover have "?page ! (j - i) = reg ! j" using a True by simp
          ultimately show ?thesis using none by auto
        next
          case False
          with a ih show ?thesis by auto
        qed
      qed
    qed
  qed
qed

lemma scan_pools_error:
  assumes page: "get_pools rpc (100 * m) 100 = Inl e"
    and lt: "100 * m < bound"
    and clean: "\<forall>m' < m. \<exists>ps. get_pools rpc (100 * m') 100 = Inr ps \<and> first_match P ps 0 = None"
  shows "n \<le> m \<Longrightarrow> scan_pools rpc P bound (100 * n) = Inl e"
proof (induction "m - n" arbitrary: n)
  case 0
  then have "n = m" by simp
  with page lt show ?case by simp
next
  case (Suc d)
  then have nm: "n < m" and d: "d = m - Suc n" and le: "Suc n \<le> m" by auto
  from clean nm obtain ps where ps: "get_pools rpc (100 * n) 100 = Inr ps" "first_match P ps 0 = None"
    by blast
  have "100 * n < bound" using nm lt by simp
  moreover have "100 * n + 100 = 100 * Suc n" by simp
  moreover have "scan_pools rpc P bound (100 * Suc n) = Inl e"
    using Suc.hyps(1) [OF d le] .
  ultimately show ?case using ps by (simp del: mult_Suc_right)
qed

lemma scan_pools_pages:
  "(\<forall>b. b < bound \<and> 100 dvd b \<longrightarrow> get_pools rpc b 100 = get_pools rpc' b 100) \<Longrightarrow>
   100 dvd i \<Longrightarrow> scan_pools rpc P bound i = scan_pools rpc' P bound i"
proof (induction rpc P bound i rule: scan_pools.induct)
  case (1 rpc P bound i)
  show ?case
  proof (cases "i < bound")
    case False
    then show ?thesis by simp
  next
    case lt: True
    with "1.prems" have same: "get_pools rpc i 100 = get_pools rpc' i 100" by blast
    show ?thesis
    proof (cases "get_pools rpc i 100")
      case (Inl e)
      with same have "get_pools rpc' i 100 = Inl e" by simp
      with lt Inl show ?thesis by simp
    next
      case (Inr ps)
      with same have Inr': "get_pools rpc' i 100 = Inr ps" by simp
      show ?thesis
      proof (cases "first_match P ps 0")
        case (Some j)
        with lt Inr Inr' show ?thesis by simp
      next
        case None
        have "100 dvd (i + 100)" using "1.prems"(2) by simp
        with "1.IH" [OF lt Inr None "1.prems"(1)]
        have "scan_pools rpc P bound (i + 100) = scan_pools rpc' P bound (i + 100)" .
        with lt Inr Inr' None show ?thesis by simp
      qed
    qed
  qed
qed


lemma dvd_100_step:
  fixes b cap :: nat
  assumes "100 dvd b" "100 dvd cap" "b < cap"
  shows "b + 100 \<le> cap"
proof -
  from assms(1) obtain x where x: "b = 100 * x" by (auto elim: dvdE)
  from assms(2) obtain y where y: "cap = 100 * y" by (auto elim: dvdE)
  from assms(3) x y have "x < y" by simp
  then have "Suc x \<le> y" by simp
  then have "100 * Suc x \<le> 100 * y" by (simp only: mult_le_mono2)
  with x y show ?thesis by simp
qed

lemma scan_registry_result:
  "\<exists>r. scan_pools (registry_rpc reg) P bound i = Inr r"
proof (cases "scan_pools (registry_rpc reg) P bound i")
  case (Inl e)
  then show ?thesis using scan_registry_no_error [of reg P bound i e] by simp
next
  case (Inr r)
  then show ?thesis by simp
qed

lemma scan_registry_iff_Some:
  assumes cap: "100 dvd cap"
  shows "(scan_pools (registry_rpc reg) P (min (length reg) cap) 0 = Inr (Some k)) =
         (k < min (length reg) cap \<and> P (reg ! k) \<and> (\<forall>j < k. \<not> P (reg ! j)))"
proof
  assume "scan_pools (registry_rpc reg) P (min (length reg) cap) 0 = Inr (Some k)"
  from scan_registry_Some [OF this]
  have k1: "k < length reg" and k2: "P (reg ! k)"
    and k3: "\<forall>j. 0 \<le> j \<and> j < k \<longrightarrow> \<not> P (reg ! j)"
    and k4: "\<exists>b. 0 \<le> b \<and> b < min (length reg) cap \<and> 100 dvd (b - 0) \<and> b \<le> k \<and> k < b + 100"
    by blast+
  from k4 obtain b where b: "b < cap" "100 dvd b" "k < b + 100" by auto
  from dvd_100_step [OF b(2) cap b(1)] b(3) have "k < cap" by simp
  with k1 k2 k3 show "k < min (length reg) cap \<and> P (reg ! k) \<and> (\<forall>j < k. \<not> P (reg ! j))"
    by simp
next
  assume a: "k < min (length reg) cap \<and> P (reg ! k) \<and> (\<forall>j < k. \<not> P (reg ! j))"
  obtain r where r: "scan_pools (registry_rpc reg) P (min (length reg) cap) 0 = Inr r"
    using scan_registry_result by blast
  show "scan_pools (registry_rpc reg) P (min (length reg) cap) 0 = Inr (Some k)"
  proof (cases r)
    case None
    with r have "\<forall>j. 0 \<le> j \<and> j < min (length reg) cap \<and> j < length reg \<longrightarrow> \<not> P (reg ! j)"
      using scan_registry_None [of reg P "min (length reg) cap" 0] by simp
    with a show ?thesis by auto
  next
    case (Some k')
    with r have "scan_pools (registry_rpc reg) P (min (length reg) cap) 0 = Inr (Some k')"
      by simp
    from scan_registry_Some [OF this]
    have k': "P (reg ! k')" "\<forall>j. 0 \<le> j \<and> j < k' \<longrightarrow> \<not> P (reg ! j)"
      by blast+
    have "\<not> k < k'" using a k'(2) by auto
    moreover have "\<not> k' < k" using a k'(1) by auto
    ultimately have "k' = k" by simp
    with r Some show ?thesis by simp
  qed
qed

lemma scan_registry_iff_None:
  assumes cap: "100 dvd cap"
  shows "(scan_pools (registry_rpc reg) P (min (length reg) cap) 0 = Inr None) =
         (\<forall>j < min (length reg) cap. \<not> P (reg ! j))"
proof
  assume "scan_pools (registry_rpc reg) P (min (length reg) cap) 0 = Inr None"
  from scan_registry_None [OF this]
  show "\<forall>j < min (length reg) cap. \<not> P (reg ! j)" by simp
next
  assume a: "\<forall>j < min (length reg) cap. \<not> P (reg ! j)"
  obtain r where r: "scan_pools (registry_rpc reg) P (min (length reg) cap) 0 = Inr r"
    using scan_registry_result by blast
  show "scan_pools (registry_rpc reg) P (min (length reg) cap) 0 = Inr None"
  proof (cases r)
    case None
    with r show ?thesis by simp
  next
    case (Some k')
    with r have "scan_pools (registry_rpc reg) P (min (length reg) cap) 0 = Inr (Some k')"
      by simp
    then have "k' < min (length reg) cap \<and> P (reg ! k')"
      by (simp only: scan_registry_iff_Some [OF cap])
    with a show ?thesis by blast
  qed
qed

lemma findPool_registry:
  "findPool (registry_rpc reg) tokenIn tokenOut = r \<longleftrightarrow>
   scan_pools (registry_rpc reg) (has_both tokenIn tokenOut) (min (length reg) 500) 0 = Inr r"
proof -
  obtain r' where r': "scan_pools (registry_rpc reg) (has_both tokenIn tokenOut) (min (length reg) 500) 0 = Inr r'"
    using scan_registry_result by blast
  have "get_number_of_pools (registry_rpc reg) = Inr (length reg)"
    by (simp add: registry_rpc_def)
  with r' have "findPool (registry_rpc reg) tokenIn tokenOut = r'"
    by (simp add: findPool_def findPool_body_def)
  with r' show ?thesis by auto
qed

lemma hasLiquidityPool_registry:
  "hasLiquidityPool (registry_rpc reg) tokenId \<longleftrightarrow>
   scan_pools (registry_rpc reg) (has_both WRAP_NEAR_TOKEN tokenId) (min (length reg) 200) 0 \<noteq> Inr None"
proof -
  obtain r' where r': "scan_pools (registry_rpc reg) (has_both WRAP_NEAR_TOKEN tokenId) (min (length reg) 200) 0 = Inr r'"
    using scan_registry_result by blast
  have "get_number_of_pools (registry_rpc reg) = Inr (length reg)"
    by (simp add: registry_rpc_def)
  with r' show ?thesis
    by (cases r') (simp_all add: hasLiquidityPool_def hasLiquidityPool_body_def)
qed

lemma scan_pools_first_pages:
  assumes cap: "bound \<le> 100 * c"
    and pages: "\<forall>m < c. get_pools rpc (100 * m) 100 = get_pools rpc' (100 * m) 100"
  shows "scan_pools rpc P bound 0 = scan_pools rpc' P bound 0"
proof (rule scan_pools_pages)
  show "\<forall>b. b < bound \<and> 100 dvd b \<longrightarrow> get_pools rpc b 100 = get_pools rpc' b 100"
  proof (intro allI impI)
    fix b assume b: "b < bound \<and> 100 dvd b"
    then obtain m where m: "b = 100 * m" by (auto elim: dvdE)
    with b cap have "m < c" by simp
    with pages m show "get_pools rpc b 100 = get_pools rpc' b 100" by simp
  qed
  show "(100::nat) dvd 0" by simp
qed


text \<open>
  C7. On a contract whose registry is \<open>reg\<close>, \<open>findPool\<close> returns the pool id \<open>k\<close>
  exactly when \<open>k\<close> is the lowest index among the first 500 pools whose token set has
  both tokens (in either role), and null exactly when none of the first 500 pools has
  both; \<open>hasLiquidityPool\<close> is true exactly when one of the first 200 pools has wNEAR
  and the token. For any RPC, the result of \<open>findPool\<close> depends only on the pool count
  and the five pages of 100 at the indices 0, 100, ..., 400 (\<open>hasLiquidityPool\<close>: the
  two pages at 0 and 100). A thrown error, of the pool count or of a page reached by
  the scan, gives null (false): the lookup fails closed.
\<close>

theorem findPool_scans_first_pools:
  "((findPool (registry_rpc reg) tokenIn tokenOut = Some k) =
      (k < min (length reg) 500 \<and> has_both tokenIn tokenOut (reg ! k) \<and>
       (\<forall>j < k. \<not> has_both tokenIn tokenOut (reg ! j)))) \<and>
   ((findPool (registry_rpc reg) tokenIn tokenOut = None) =
      (\<forall>j < min (length reg) 500. \<not> has_both tokenIn tokenOut (reg ! j))) \<and>
   (hasLiquidityPool (registry_rpc reg) tokenId =
      (\<exists>j < min (length reg) 200. has_both WRAP_NEAR_TOKEN tokenId (reg ! j))) \<and>
   (get_number_of_pools rpc = get_number_of_pools rpc' \<and>
    (\<forall>m < 5. get_pools rpc (100 * m) 100 = get_pools rpc' (100 * m) 100) \<longrightarrow>
      findPool rpc tokenIn tokenOut = findPool rpc' tokenIn tokenOut) \<and>
   (get_number_of_pools rpc = get_number_of_pools rpc' \<and>
    (\<forall>m < 2. get_pools rpc (100 * m) 100 = get_pools rpc' (100 * m) 100) \<longrightarrow>
      hasLiquidityPool rpc tokenId = hasLiquidityPool rpc' tokenId) \<and>
   (get_number_of_pools rpc = Inl e \<longrightarrow>
      findPool rpc tokenIn tokenOut = None \<and> \<not> hasLiquidityPool rpc tokenId) \<and>
   (get_number_of_pools rpc = Inr numPools \<and> get_pools rpc (100 * m) 100 = Inl e \<and>
    (\<forall>m' < m. \<exists>ps. get_pools rpc (100 * m') 100 = Inr ps \<and>
        first_match (has_both tokenIn tokenOut) ps 0 = None) \<and>
    100 * m < min numPools 500 \<longrightarrow>
      findPool rpc tokenIn tokenOut = None) \<and>
   (get_number_of_pools rpc = Inr numPools \<and> get_pools rpc (100 * m) 100 = Inl e \<and>
    (\<forall>m' < m. \<exists>ps. get_pools rpc (100 * m') 100 = Inr ps \<and>
        first_match (has_both WRAP_NEAR_TOKEN tokenId) ps 0 = None) \<and>
    100 * m < min numPools 200 \<longrightarrow>
      \<not> hasLiquidityPool rpc tokenId)"
proof (intro conjI impI)
  have d500: "(100::nat) dvd 500" and d200: "(100::nat) dvd 200"
    by simp_all
  show "(findPool (registry_rpc reg) tokenIn tokenOut = Some k) =
      (k < min (length reg) 500 \<and> has_both tokenIn tokenOut (reg ! k) \<and>
       (\<forall>j < k. \<not> has_both tokenIn tokenOut (reg ! j)))"
    by (simp only: findPool_registry scan_registry_iff_Some [OF d500])
  show "(findPool (registry_rpc reg) tokenIn tokenOut = None) =
      (\<forall>j < min (length reg) 500. \<not> has_both tokenIn tokenOut (reg ! j))"
    by (simp only: findPool_registry scan_registry_iff_None [OF d500])
  show "hasLiquidityPool (registry_rpc reg) tokenId =
      (\<exists>j < min (length reg) 200. has_both WRAP_NEAR_TOKEN tokenId (reg ! j))"
    by (simp only: hasLiquidityPool_registry scan_registry_iff_None [OF d200]) blast
next
  assume a: "get_number_of_pools rpc = get_number_of_pools rpc' \<and>
    (\<forall>m < 5. get_pools rpc (100 * m) 100 = get_pools rpc' (100 * m) 100)"
  show "findPool rpc tokenIn tokenOut = findPool rpc' tokenIn tokenOut"
  proof (cases "get_number_of_pools rpc")
    case (Inl e')
    moreover from a Inl have "get_number_of_pools rpc' = Inl e'" by simp
    ultimately show ?thesis by (simp add: findPool_def findPool_body_def)
  next
    case (Inr n)
    from a Inr have Inr': "get_number_of_pools rpc' = Inr n" by simp
    have "scan_pools rpc (has_both tokenIn tokenOut) (min n 500) 0 =
          scan_pools rpc' (has_both tokenIn tokenOut) (min n 500) 0"
      using a by (intro scan_pools_first_pages [of _ 5]) simp_all
    with Inr Inr' show ?thesis by (simp add: findPool_def findPool_body_def)
  qed
next
  assume a: "get_number_of_pools rpc = get_number_of_pools rpc' \<and>
    (\<forall>m < 2. get_pools rpc (100 * m) 100 = get_pools rpc' (100 * m) 100)"
  show "hasLiquidityPool rpc tokenId = hasLiquidityPool rpc' tokenId"
  proof (cases "get_number_of_pools rpc")
    case (Inl e')
    moreover from a Inl have "get_number_of_pools rpc' = Inl e'" by simp
    ultimately show ?thesis by (simp add: hasLiquidityPool_def hasLiquidityPool_body_def)
  next
    case (Inr n)
    from a Inr have Inr': "get_number_of_pools rpc' = Inr n" by simp
    have "scan_pools rpc (has_both WRAP_NEAR_TOKEN tokenId) (min n 200) 0 =
          scan_pools rpc' (has_both WRAP_NEAR_TOKEN tokenId) (min n 200) 0"
      using a by (intro scan_pools_first_pages [of _ 2]) simp_all
    with Inr Inr' show ?thesis by (simp add: hasLiquidityPool_def hasLiquidityPool_body_def)
  qed
next
  assume "get_number_of_pools rpc = Inl e"
  then show "findPool rpc tokenIn tokenOut = None"
    by (simp add: findPool_def findPool_body_def)
next
  assume "get_number_of_pools rpc = Inl e"
  then show "\<not> hasLiquidityPool rpc tokenId"
    by (simp add: hasLiquidityPool_def hasLiquidityPool_body_def)
next
  assume a: "get_number_of_pools rpc = Inr numPools \<and> get_pools rpc (100 * m) 100 = Inl e \<and>
    (\<forall>m' < m. \<exists>ps. get_pools rpc (100 * m') 100 = Inr ps \<and>
        first_match (has_both tokenIn tokenOut) ps 0 = None) \<and>
    100 * m < min numPools 500"
  then have "scan_pools rpc (has_both tokenIn tokenOut) (min numPools 500) (100 * 0) = Inl e"
    by (intro scan_pools_error [of rpc m e]) blast+
  with a show "findPool rpc tokenIn tokenOut = None"
    by (simp add: findPool_def findPool_body_def)
next
  assume a: "get_number_of_pools rpc = Inr numPools \<and> get_pools rpc (100 * m) 100 = Inl e \<and>
    (\<forall>m' < m. \<exists>ps. get_pools rpc (100 * m') 100 = Inr ps \<and>
        first_match (has_both WRAP_NEAR_TOKEN tokenId) ps 0 = None) \<and>
    100 * m < min numPools 200"
  then have "scan_pools rpc (has_both WRAP_NEAR_TOKEN tokenId) (min numPools 200) (100 * 0) = Inl e"
    by (intro scan_pools_error [of rpc m e]) blast+
  with a show "\<not> hasLiquidityPool rpc tokenId"
    by (simp add: hasLiquidityPool_def hasLiquidityPool_body_def)
qed


theorem findPool_scans_first_pools_witness:
  "findPool
     (registry_rpc
        [\<lparr> token_account_ids = [''ref.testnet'', ''usdc.testnet''] \<rparr>,
         \<lparr> token_account_ids = [''wrap.testnet'', ''usdt.fakes.testnet''] \<rparr>])
     ''usdt.fakes.testnet'' ''wrap.testnet'' = Some 1 \<and>
   hasLiquidityPool
     (registry_rpc
        [\<lparr> token_account_ids = [''ref.testnet'', ''usdc.testnet''] \<rparr>,
         \<lparr> token_account_ids = [''wrap.testnet'', ''usdt.fakes.testnet''] \<rparr>])
     ''usdt.fakes.testnet'' \<and>
   get_number_of_pools
     \<lparr> get_number_of_pools = Inr 250,
       get_pools = (\<lambda>i l. if i = 0 then Inr [] else Inl (JsError ''timeout'')) \<rparr> = Inr 250 \<and>
   get_pools
     \<lparr> get_number_of_pools = Inr 250,
       get_pools = (\<lambda>i l. if i = 0 then Inr [] else Inl (JsError ''timeout'')) \<rparr>
     (100 * 1) 100 = Inl (JsError ''timeout'') \<and>
   findPool
     \<lparr> get_number_of_pools = Inr 250,
       get_pools = (\<lambda>i l. if i = 0 then Inr [] else Inl (JsError ''timeout'')) \<rparr>
     ''usdt.fakes.testnet'' ''wrap.testnet'' = None \<and>
   \<not> hasLiquidityPool
     \<lparr> get_number_of_pools = Inr 250,
       get_pools = (\<lambda>i l. if i = 0 then Inr [] else Inl (JsError ''timeout'')) \<rparr>
     ''usdt.fakes.testnet''"
proof -
  let ?reg = "[\<lparr> token_account_ids = [''ref.testnet'', ''usdc.testnet''] \<rparr>,
               \<lparr> token_account_ids = [''wrap.testnet'', ''usdt.fakes.testnet''] \<rparr>]"
  let ?rpc = "\<lparr> get_number_of_pools = Inr 250,
       get_pools = (\<lambda>i l. if i = 0 then Inr [] else Inl (JsError ''timeout'')) \<rparr>"
  have h1: "1 < min (length ?reg) 500 \<and>
      has_both ''usdt.fakes.testnet'' ''wrap.testnet'' (?reg ! 1) \<and>
      (\<forall>j < 1. \<not> has_both ''usdt.fakes.testnet'' ''wrap.testnet'' (?reg ! j))"
    by (simp add: has_both_def)
  have "1 < min (length ?reg) 200 \<and> has_both WRAP_NEAR_TOKEN ''usdt.fakes.testnet'' (?reg ! 1)"
    by (simp add: has_both_def WRAP_NEAR_TOKEN_def)
  then have h2: "\<exists>j < min (length ?reg) 200. has_both WRAP_NEAR_TOKEN ''usdt.fakes.testnet'' (?reg ! j)"
    by (rule exI)
  have h3: "get_number_of_pools ?rpc = Inr 250 \<and>
      get_pools ?rpc (100 * 1) 100 = Inl (JsError ''timeout'') \<and>
      (\<forall>m' < 1. \<exists>ps. get_pools ?rpc (100 * m') 100 = Inr ps \<and>
          first_match (has_both ''usdt.fakes.testnet'' ''wrap.testnet'') ps 0 = None) \<and>
      100 * 1 < min 250 (500::nat)"
    by simp
  have h4: "get_number_of_pools ?rpc = Inr 250 \<and>
      get_pools ?rpc (100 * 1) 100 = Inl (JsError ''timeout'') \<and>
      (\<forall>m' < 1. \<exists>ps. get_pools ?rpc (100 * m') 100 = Inr ps \<and>
          first_match (has_both WRAP_NEAR_TOKEN ''usdt.fakes.testnet'') ps 0 = None) \<and>
      100 * 1 < min 250 (200::nat)"
    by simp
  from findPool_scans_first_pools
    [where reg = ?reg and tokenIn = "''usdt.fakes.testnet''" and tokenOut = "''wrap.testnet''"
       and k = 1 and tokenId = "''usdt.fakes.testnet''" and rpc = ?rpc and rpc' = ?rpc
       and e = "JsError ''timeout''" and numPools = 250 and m = 1]
    h1 h2 h3 h4
  show ?thesis by blast
qed

section \<open>Properties of sorting\<close>

lemma set_insert_by: "set (insert_by le x ys) = insert x (set ys)"
  by (induction ys) auto


lemma set_js_sort: "set (js_sort le xs) = set xs"
  by (induction xs) (simp_all add: js_sort_def set_insert_by)


lemma sorted_insert_by:
  assumes total: "\<forall>a \<in> A. \<forall>b \<in> A. le a b \<or> le b a"
    and trans: "\<forall>a \<in> A. \<forall>b \<in> A. \<forall>c \<in> A. le a b \<longrightarrow> le b c \<longrightarrow> le a c"
    and x: "x \<in> A"
  shows "set ys \<subseteq> A \<Longrightarrow> sorted_wrt le ys \<Longrightarrow> sorted_wrt le (insert_by le x ys)"
proof (induction ys)
  case Nil
  then show ?case by simp
next
  case (Cons y ys)
  from Cons.prems have y: "y \<in> A" and ys: "set ys \<subseteq> A"
    and y_le: "\<forall>z \<in> set ys. le y z" and sorted: "sorted_wrt le ys"
    by simp_all
  show ?case
  proof (cases "le x y")
    case True
    have "\<forall>z \<in> set ys. le x z"
    proof
      fix z assume z: "z \<in> set ys"
      with ys have "z \<in> A" by blast
      moreover from z y_le have "le y z" by blast
      ultimately show "le x z" using trans x y True by blast
    qed
    with True y_le sorted show ?thesis by simp
  next
    case False
    with total x y have yx: "le y x" by blast
    have "sorted_wrt le (insert_by le x ys)"
      using ys sorted by (rule Cons.IH)
    moreover have "\<forall>z \<in> set (insert_by le x ys). le y z"
      using yx y_le by (simp add: set_insert_by)
    ultimately show ?thesis using False by simp
  qed
qed

lemma sorted_js_sort:
  assumes total: "\<forall>a \<in> A. \<forall>b \<in> A. le a b \<or> le b a"
    and trans: "\<forall>a \<in> A. \<forall>b \<in> A. \<forall>c \<in> A. le a b \<longrightarrow> le b c \<longrightarrow> le a c"
  shows "set xs \<subseteq> A \<Longrightarrow> sorted_wrt le (js_sort le xs)"
proof (induction xs)
  case Nil
  then show ?case by (simp add: js_sort_def)
next
  case (Cons x xs)
  from Cons.prems have x: "x \<in> A" and xs: "set xs \<subseteq> A"
    by simp_all
  from xs have ih: "sorted_wrt le (js_sort le xs)"
    by (rule Cons.IH)
  from xs have sub: "set (js_sort le xs) \<subseteq> A"
    by (simp only: set_js_sort)
  have "sorted_wrt le (insert_by le x (js_sort le xs))"
    using sub ih by (rule sorted_insert_by [OF total trans x])
  then show ?case by (simp add: js_sort_def)
qed

section \<open>Properties of the task planner\<close>








section \<open>Properties of the token predictor\<close>

lemma find_Some_matches: "find P xs = Some x \<Longrightarrow> P x \<and> x \<in> set xs"
proof (induction xs)
  case Nil
  then show ?case by simp
next
  case (Cons a xs)
  show ?case
  proof (cases "P a")
    case True
    with Cons.prems show ?thesis by simp
  next
    case False
    with Cons show ?thesis by simp
  qed
qed

lemma find_unique:
  assumes only: "\<forall>y \<in> set xs. P y \<longrightarrow> y = x" and holds: "P x"
  shows "x \<in> set xs \<Longrightarrow> find P xs = Some x"
  using only
proof (induction xs)
  case Nil
  then show ?case by simp
next
  case (Cons a xs)
  show ?case
  proof (cases "P a")
    case True
    with Cons.prems(2) have "a = x" by simp
    with True show ?thesis by simp
  next
    case False
    with holds have "a \<noteq> x" by blast
    with Cons.prems(1) have "x \<in> set xs" by simp
    moreover from Cons.prems(2) have "\<forall>y \<in> set xs. P y \<longrightarrow> y = x" by simp
    ultimately have "find P xs = Some x" by (rule Cons.IH)
    with False show ?thesis by simp
  qed
qed

text \<open>
  C2 (as the code has it). When the model's answer has a non-empty reasoning and a
  non-empty identifier, and \<open>entry\<close> is the first catalog entry whose contract id or
  symbol equals the identifier (the only one, when a single entry matches), the
  prediction returned has \<open>selectedToken\<close> equal to the entry's \<open>token_account_id\<close>, and
  the symbol and price of the entry. When the identifier matches no catalog entry, and
  also when the call or the parse fails or a required field is missing or empty, the
  result is that of the keyword fallback, which depends on the catalog and the goal only.
\<close>

theorem predictBestToken_canonical_id:
  "(raw_selectedToken p = Some ident \<and> ident \<noteq> [] \<and>
    raw_reasoning p = Some why \<and> why \<noteq> [] \<and>
    find (matches ident) tokens = Some entry \<longrightarrow>
      predictBestToken tokens agentGoal (Inr p) =
        Inr \<lparr> selectedToken = token_account_id entry, pred_symbol = symbol entry,
              reasoning = why, confidence = raw_confidence p, pred_price = price entry \<rparr> \<and>
      entry \<in> set tokens \<and>
      (token_account_id entry = ident \<or> symbol entry = ident)) \<and>
   (entry \<in> set tokens \<and> matches ident entry \<and>
    (\<forall>t \<in> set tokens. matches ident t \<longrightarrow> t = entry) \<longrightarrow>
      find (matches ident) tokens = Some entry) \<and>
   (raw_selectedToken p = Some ident \<and> (\<forall>t \<in> set tokens. \<not> matches ident t) \<longrightarrow>
      predictBestToken tokens agentGoal (Inr p) = predict_fallback tokens agentGoal) \<and>
   (raw_selectedToken p = None \<or> raw_selectedToken p = Some [] \<or>
    raw_reasoning p = None \<or> raw_reasoning p = Some [] \<longrightarrow>
      predictBestToken tokens agentGoal (Inr p) = predict_fallback tokens agentGoal) \<and>
   predictBestToken tokens agentGoal (Inl e) = predict_fallback tokens agentGoal"
proof (intro conjI impI)
  assume a: "raw_selectedToken p = Some ident \<and> ident \<noteq> [] \<and>
    raw_reasoning p = Some why \<and> why \<noteq> [] \<and> find (matches ident) tokens = Some entry"
  then show "predictBestToken tokens agentGoal (Inr p) =
        Inr \<lparr> selectedToken = token_account_id entry, pred_symbol = symbol entry,
              reasoning = why, confidence = raw_confidence p, pred_price = price entry \<rparr>"
    by (simp add: predictBestToken_def predict_from_model_def)
  from a have "matches ident entry \<and> entry \<in> set tokens"
    using find_Some_matches [of "matches ident" tokens entry] by blast
  then show "entry \<in> set tokens" and "token_account_id entry = ident \<or> symbol entry = ident"
    by (simp_all add: matches_def)
next
  assume "entry \<in> set tokens \<and> matches ident entry \<and>
    (\<forall>t \<in> set tokens. matches ident t \<longrightarrow> t = entry)"
  then show "find (matches ident) tokens = Some entry"
    using find_unique [of tokens "matches ident" entry] by blast
next
  assume a: "raw_selectedToken p = Some ident \<and> (\<forall>t \<in> set tokens. \<not> matches ident t)"
  then have "find (matches ident) tokens = None"
    by (simp add: find_None_iff)
  with a show "predictBestToken tokens agentGoal (Inr p) = predict_fallback tokens agentGoal"
    by (simp add: predictBestToken_def predict_from_model_def split: option.splits)
next
  assume "raw_selectedToken p = None \<or> raw_selectedToken p = Some [] \<or>
    raw_reasoning p = None \<or> raw_reasoning p = Some []"
  then show "predictBestToken tokens agentGoal (Inr p) = predict_fallback tokens agentGoal"
    by (auto simp: predictBestToken_def predict_from_model_def split: option.splits)
next
  show "predictBestToken tokens agentGoal (Inl e) = predict_fallback tokens agentGoal"
    by (simp add: predictBestToken_def predict_from_model_def)
qed

theorem predictBestToken_canonical_id_witness:
  "raw_selectedToken \<lparr> raw_selectedToken = Some ''DAI'', raw_symbol = Some ''DAI'',
       raw_reasoning = Some ''stable'', raw_confidence = Some (9 / 10),
       raw_price = Some ''1'' \<rparr> = Some ''DAI'' \<and>
   find (matches ''DAI'')
     [\<lparr> token_account_id = ''wbtc.fakes.testnet'', symbol = ''WBTC'', price = ''101700'', decimal = 8 \<rparr>,
      \<lparr> token_account_id = ''dai.fakes.testnet'', symbol = ''DAI'', price = ''0.999892'', decimal = 18 \<rparr>] =
     Some \<lparr> token_account_id = ''dai.fakes.testnet'', symbol = ''DAI'', price = ''0.999892'', decimal = 18 \<rparr> \<and>
   predictBestToken
     [\<lparr> token_account_id = ''wbtc.fakes.testnet'', symbol = ''WBTC'', price = ''101700'', decimal = 8 \<rparr>,
      \<lparr> token_account_id = ''dai.fakes.testnet'', symbol = ''DAI'', price = ''0.999892'', decimal = 18 \<rparr>]
     ''grow my funds''
     (Inr \<lparr> raw_selectedToken = Some ''DAI'', raw_symbol = Some ''DAI'',
            raw_reasoning = Some ''stable'', raw_confidence = Some (9 / 10),
            raw_price = Some ''1'' \<rparr>) =
     Inr \<lparr> selectedToken = ''dai.fakes.testnet'', pred_symbol = ''DAI'', reasoning = ''stable'',
           confidence = Some (9 / 10), pred_price = ''0.999892'' \<rparr>"
proof -
  let ?tokens = "[\<lparr> token_account_id = ''wbtc.fakes.testnet'', symbol = ''WBTC'', price = ''101700'', decimal = 8 \<rparr>,
      \<lparr> token_account_id = ''dai.fakes.testnet'', symbol = ''DAI'', price = ''0.999892'', decimal = 18 \<rparr>]"
  let ?p = "\<lparr> raw_selectedToken = Some ''DAI'', raw_symbol = Some ''DAI'',
            raw_reasoning = Some ''stable'', raw_confidence = Some (9 / 10),
            raw_price = Some ''1'' \<rparr>"
  let ?entry = "\<lparr> token_account_id = ''dai.fakes.testnet'', symbol = ''DAI'', price = ''0.999892'', decimal = 18 \<rparr>"
  have h: "raw_selectedToken ?p = Some ''DAI'' \<and> ''DAI'' \<noteq> [] \<and>
      raw_reasoning ?p = Some ''stable'' \<and> ''stable'' \<noteq> [] \<and>
      find (matches ''DAI'') ?tokens = Some ?entry"
    by (simp add: matches_def)
  from predictBestToken_canonical_id
    [where p = ?p and ident = "''DAI''" and why = "''stable''" and tokens = ?tokens
       and entry = ?entry and agentGoal = "''grow my funds''", THEN conjunct1, THEN mp, OF h]
  have "predictBestToken ?tokens ''grow my funds'' (Inr ?p) =
        Inr \<lparr> selectedToken = token_account_id ?entry, pred_symbol = symbol ?entry,
              reasoning = ''stable'', confidence = raw_confidence ?p, pred_price = price ?entry \<rparr>"
    by (rule conjunct1)
  then have r: "predictBestToken ?tokens ''grow my funds'' (Inr ?p) =
        Inr \<lparr> selectedToken = ''dai.fakes.testnet'', pred_symbol = ''DAI'', reasoning = ''stable'',
              confidence = Some (9 / 10), pred_price = ''0.999892'' \<rparr>"
    by simp
  from h have h1: "raw_selectedToken ?p = Some ''DAI''"
    and h2: "find (matches ''DAI'') ?tokens = Some ?entry"
    by blast+
  show ?thesis
    by (intro conjI) (rule h1, rule h2, rule r)
qed

theorem predictBestToken_missing_reasoning_counterexample:
  "matches ''DAI''
     \<lparr> token_account_id = ''dai.fakes.testnet'', symbol = ''DAI'', price = ''0.999892'', decimal = 18 \<rparr> \<and>
   predictBestToken
     [\<lparr> token_account_id = ''wbtc.fakes.testnet'', symbol = ''WBTC'', price = ''101700'', decimal = 8 \<rparr>,
      \<lparr> token_account_id = ''dai.fakes.testnet'', symbol = ''DAI'', price = ''0.999892'', decimal = 18 \<rparr>]
     ''grow my funds''
     (Inr \<lparr> raw_selectedToken = Some ''DAI'', raw_symbol = Some ''DAI'',
            raw_reasoning = None, raw_confidence = Some (9 / 10), raw_price = Some ''1'' \<rparr>) =
     Inr \<lparr> selectedToken = ''wbtc.fakes.testnet'', pred_symbol = ''WBTC'',
           reasoning = ''Selected based on highest price and liquidity. This is a fallback selection due to AI analysis error.'',
           confidence = Some (1 / 2), pred_price = ''101700'' \<rparr>"
  by code_simp

section \<open>Properties of the token catalog\<close>

lemma price_desc_total:
  "\<forall>a \<in> Collect (positive_price pf). \<forall>b \<in> Collect (positive_price pf).
     price_desc pf a b \<or> price_desc pf b a"
  by (auto simp: price_desc_def split: option.splits)

lemma price_desc_trans:
  "\<forall>a \<in> Collect (positive_price pf). \<forall>b \<in> Collect (positive_price pf).
   \<forall>c \<in> Collect (positive_price pf).
     price_desc pf a b \<longrightarrow> price_desc pf b c \<longrightarrow> price_desc pf a c"
  by (auto simp: price_desc_def positive_price_def split: option.splits)

lemma sorted_positive_prices:
  "sorted_wrt (price_desc pf) (js_sort (price_desc pf) (filter (positive_price pf) xs))"
  by (rule sorted_js_sort [OF price_desc_total price_desc_trans]) auto

lemma positive_sorted_by_price_desc:
  assumes "\<forall>t \<in> set xs. positive_price pf t" and "sorted_wrt (price_desc pf) xs"
  shows "sorted_by_price_desc pf xs"
  unfolding sorted_by_price_desc_def
proof (rule sorted_wrt_mono_rel [OF _ assms(2)])
  fix a b assume "a \<in> set xs" "b \<in> set xs" "price_desc pf a b"
  with assms(1) show "case (pf (price a), pf (price b)) of
      (Some x, Some y) \<Rightarrow> y \<le> x | _ \<Rightarrow> False"
    by (auto simp: price_desc_def positive_price_def split: option.splits)
qed

lemma set_collect_liquid: "set (collect_liquid liq ts acc) \<subseteq> set acc \<union> set ts"
proof (induction ts arbitrary: acc)
  case Nil
  then show ?case by simp
next
  case (Cons t ts)
  have a: "set (collect_liquid liq ts acc) \<subseteq> set acc \<union> set ts"
    by (rule Cons.IH)
  have b: "set (collect_liquid liq ts (acc @ [t])) \<subseteq> set (acc @ [t]) \<union> set ts"
    by (rule Cons.IH)
  from a b show ?case by (auto simp: Let_def)
qed

lemma length_collect_liquid:
  "length acc < 15 \<Longrightarrow> length (collect_liquid liq ts acc) \<le> 15"
proof (induction ts arbitrary: acc)
  case Nil
  then show ?case by simp
next
  case (Cons t ts)
  show ?case
  proof (cases "token_account_id t = WRAP_NEAR_TOKEN")
    case True
    with Cons show ?thesis by simp
  next
    case False
    show ?thesis
    proof (cases "liq (token_account_id t)")
      case no: False
      with False Cons show ?thesis by (simp add: Let_def)
    next
      case yes: True
      show ?thesis
      proof (cases "length (acc @ [t]) \<ge> 15")
        case True
        with False yes Cons.prems show ?thesis by (simp add: Let_def)
      next
        case small: False
        then have "length (acc @ [t]) < 15" by simp
        then have "length (collect_liquid liq ts (acc @ [t])) \<le> 15" by (rule Cons.IH)
        with False yes small show ?thesis by (simp add: Let_def)
      qed
    qed
  qed
qed

lemma sorted_collect_liquid:
  "sorted_wrt R (acc @ ts) \<Longrightarrow> sorted_wrt R (collect_liquid liq ts acc)"
proof (induction ts arbitrary: acc)
  case Nil
  then show ?case by simp
next
  case (Cons t ts)
  from Cons.prems have skip: "sorted_wrt R (acc @ ts)"
    by (auto simp: sorted_wrt_append)
  from Cons.prems have keep: "sorted_wrt R ((acc @ [t]) @ ts)"
    by simp
  from Cons.prems have pre: "sorted_wrt R (acc @ [t])"
    by (auto simp: sorted_wrt_append)
  from Cons.prems have pre0: "sorted_wrt R acc"
    by (auto simp: sorted_wrt_append)
  have a: "sorted_wrt R (collect_liquid liq ts acc)"
    using skip by (rule Cons.IH)
  have b: "sorted_wrt R (collect_liquid liq ts (acc @ [t]))"
    using keep by (rule Cons.IH)
  show ?case
  proof (cases "token_account_id t = WRAP_NEAR_TOKEN")
    case True
    with a show ?thesis by simp
  next
    case False
    show ?thesis
    proof (cases "liq (token_account_id t)")
      case no: False
      with False a pre0 show ?thesis by (simp add: Let_def)
    next
      case yes: True
      with False b pre show ?thesis by (simp add: Let_def)
    qed
  qed
qed

lemma fetch_live_good:
  assumes "fetch_live pf liq indexer = Inr r"
  shows "length r \<le> 15 \<and> sorted_by_price_desc pf r \<and> (\<forall>t \<in> set r. positive_price pf t)"
proof -
  from assms obtain mapped where r: "r = collect_liquid liq
      (take 30 (js_sort (price_desc pf) (filter (positive_price pf) mapped))) []"
    by (auto simp: fetch_live_def Let_def split: sum.splits)
  let ?all = "js_sort (price_desc pf) (filter (positive_price pf) mapped)"
  have len: "length r \<le> 15"
    unfolding r by (rule length_collect_liquid) simp
  have "set r \<subseteq> set (take 30 ?all)"
    unfolding r using set_collect_liquid [of liq "take 30 ?all" "[]"] by simp
  also have "\<dots> \<subseteq> set ?all" by (rule set_take_subset)
  also have "\<dots> = set (filter (positive_price pf) mapped)" by (rule set_js_sort)
  finally have pos: "\<forall>t \<in> set r. positive_price pf t" by auto
  have "sorted_wrt (price_desc pf) (take 30 ?all)"
    using sorted_positive_prices by (rule sorted_wrt_take)
  then have "sorted_wrt (price_desc pf) ([] @ take 30 ?all)" by simp
  then have "sorted_wrt (price_desc pf) r"
    unfolding r by (rule sorted_collect_liquid)
  with pos have "sorted_by_price_desc pf r"
    by (rule positive_sorted_by_price_desc)
  with len pos show ?thesis by simp
qed

lemma loadFallbackTokens_entries_good:
  "length (loadFallbackTokens pf (Inr entries)) \<le> 15 \<and>
   sorted_by_price_desc pf (loadFallbackTokens pf (Inr entries)) \<and>
   (\<forall>t \<in> set (loadFallbackTokens pf (Inr entries)). positive_price pf t)"
proof -
  let ?all = "js_sort (price_desc pf) (filter (positive_price pf) entries)"
  have r: "loadFallbackTokens pf (Inr entries) = take 15 ?all"
    by (simp add: loadFallbackTokens_def)
  have "set (take 15 ?all) \<subseteq> set ?all" by (rule set_take_subset)
  also have "\<dots> = set (filter (positive_price pf) entries)" by (rule set_js_sort)
  finally have pos: "\<forall>t \<in> set (take 15 ?all). positive_price pf t" by auto
  have "sorted_wrt (price_desc pf) (take 15 ?all)"
    using sorted_positive_prices by (rule sorted_wrt_take)
  with pos have srt: "sorted_by_price_desc pf (take 15 ?all)"
    by (rule positive_sorted_by_price_desc)
  have len: "length (take 15 ?all) \<le> 15" by simp
  from len srt pos show ?thesis
    unfolding r by (intro conjI)
qed

lemma builtin_tokens_good:
  assumes "pf ''101700'' = Some a" "pf ''0.999892'' = Some b" "0 < b" "b \<le> a"
  shows "length builtin_tokens \<le> 15 \<and> sorted_by_price_desc pf builtin_tokens \<and>
         (\<forall>t \<in> set builtin_tokens. positive_price pf t)"
proof -
  from assms have "0 < a" by simp
  with assms show ?thesis
    by (simp add: builtin_tokens_def sorted_by_price_desc_def positive_price_def)
qed

lemma loadFallbackTokens_good:
  assumes "pf ''101700'' = Some a" "pf ''0.999892'' = Some b" "0 < b" "b \<le> a"
  shows "length (loadFallbackTokens pf fallbackData) \<le> 15 \<and>
         sorted_by_price_desc pf (loadFallbackTokens pf fallbackData) \<and>
         (\<forall>t \<in> set (loadFallbackTokens pf fallbackData). positive_price pf t)"
proof (cases fallbackData)
  case (Inl e)
  then have "loadFallbackTokens pf fallbackData = builtin_tokens"
    by (simp add: loadFallbackTokens_def)
  with builtin_tokens_good [OF assms] show ?thesis by simp
next
  case (Inr entries)
  with loadFallbackTokens_entries_good [of pf entries] show ?thesis by simp
qed

lemma fetchAvailableTokens_cases:
  "fetchAvailableTokens pf liq indexer fallbackData = loadFallbackTokens pf fallbackData \<or>
   (fetchAvailableTokens pf liq indexer fallbackData \<noteq> [] \<and>
    fetch_live pf liq indexer = Inr (fetchAvailableTokens pf liq indexer fallbackData))"
  by (cases "fetch_live pf liq indexer") (simp_all add: fetchAvailableTokens_def)

text \<open>
  C8. Whatever the indexer, the liquidity checks and the bundled dataset give, the list
  returned by \<open>fetchAvailableTokens\<close> (from the live path, from the static dataset or
  the built-in list) has at most 15 entries, is sorted by descending price, and every
  price in it reads as a number greater than 0. The reading \<open>parseFloat\<close> is any
  function into a linear order that gives the two prices of the built-in list,
  101700 and 0.999892, values \<open>a \<ge> b > 0\<close>.
\<close>

theorem fetchAvailableTokens_capped_sorted_positive:
  assumes "parseFloat ''101700'' = Some a" and "parseFloat ''0.999892'' = Some b"
    and "0 < b" and "b \<le> a"
  shows "length (fetchAvailableTokens parseFloat hasLiquidity indexer fallbackData) \<le> 15 \<and>
         sorted_by_price_desc parseFloat
           (fetchAvailableTokens parseFloat hasLiquidity indexer fallbackData) \<and>
         (\<forall>t \<in> set (fetchAvailableTokens parseFloat hasLiquidity indexer fallbackData).
            \<exists>v. parseFloat (price t) = Some v \<and> 0 < v)"
proof -
  let ?r = "fetchAvailableTokens parseFloat hasLiquidity indexer fallbackData"
  have good: "length ?r \<le> 15 \<and> sorted_by_price_desc parseFloat ?r \<and>
              (\<forall>t \<in> set ?r. positive_price parseFloat t)"
    using fetchAvailableTokens_cases [of parseFloat hasLiquidity indexer fallbackData]
  proof
    assume "?r = loadFallbackTokens parseFloat fallbackData"
    with loadFallbackTokens_good [OF assms, of fallbackData] show ?thesis by simp
  next
    assume "?r \<noteq> [] \<and> fetch_live parseFloat hasLiquidity indexer = Inr ?r"
    then have "fetch_live parseFloat hasLiquidity indexer = Inr ?r" by simp
    then show ?thesis by (rule fetch_live_good)
  qed
  moreover have "\<exists>v. parseFloat (price t) = Some v \<and> 0 < v" if "positive_price parseFloat t" for t
    using that by (cases "parseFloat (price t)") (simp_all add: positive_price_def)
  ultimately show ?thesis by blast
qed


theorem fetchAvailableTokens_capped_sorted_positive_witness:
  "(\<lambda>s. if s = ''101700'' then Some (101700::rat)
        else if s = ''0.999892'' then Some (999892 / 1000000) else None) ''101700'' = Some 101700 \<and>
   (\<lambda>s. if s = ''101700'' then Some (101700::rat)
        else if s = ''0.999892'' then Some (999892 / 1000000) else None) ''0.999892'' =
     Some (999892 / 1000000) \<and>
   (0::rat) < 999892 / 1000000 \<and> (999892 / 1000000 :: rat) \<le> 101700 \<and>
   map token_account_id
     (fetchAvailableTokens
        (\<lambda>s. if s = ''101700'' then Some (101700::rat)
             else if s = ''0.999892'' then Some (999892 / 1000000) else None)
        (\<lambda>tokenId. True)
        (Inr [(''usdt.fakes.testnet'',
               Some \<lparr> info_symbol = Some ''USDT.e'', info_price = Some ''0.999892'',
                      info_decimal = Some 6 \<rparr>),
              (''ref.fakes.testnet'',
               Some \<lparr> info_symbol = Some ''REF'', info_price = None, info_decimal = None \<rparr>),
              (''wbtc.fakes.testnet'',
               Some \<lparr> info_symbol = Some ''WBTC'', info_price = Some ''101700'',
                      info_decimal = Some 8 \<rparr>)])
        (Inl NonError)) = [''wbtc.fakes.testnet'', ''usdt.fakes.testnet''] \<and>
   sorted_by_price_desc
     (\<lambda>s. if s = ''101700'' then Some (101700::rat)
          else if s = ''0.999892'' then Some (999892 / 1000000) else None)
     (fetchAvailableTokens
        (\<lambda>s. if s = ''101700'' then Some (101700::rat)
             else if s = ''0.999892'' then Some (999892 / 1000000) else None)
        (\<lambda>tokenId. True)
        (Inr [(''usdt.fakes.testnet'',
               Some \<lparr> info_symbol = Some ''USDT.e'', info_price = Some ''0.999892'',
                      info_decimal = Some 6 \<rparr>),
              (''ref.fakes.testnet'',
               Some \<lparr> info_symbol = Some ''REF'', info_price = None, info_decimal = None \<rparr>),
              (''wbtc.fakes.testnet'',
               Some \<lparr> info_symbol = Some ''WBTC'', info_price = Some ''101700'',
                      info_decimal = Some 8 \<rparr>)])
        (Inl NonError))"
proof -
  let ?pf = "\<lambda>s. if s = ''101700'' then Some (101700::rat)
        else if s = ''0.999892'' then Some (999892 / 1000000) else None"
  let ?indexer = "Inr [(''usdt.fakes.testnet'',
               Some \<lparr> info_symbol = Some ''USDT.e'', info_price = Some ''0.999892'',
                      info_decimal = Some 6 \<rparr>),
              (''ref.fakes.testnet'',
               Some \<lparr> info_symbol = Some ''REF'', info_price = None, info_decimal = None \<rparr>),
              (''wbtc.fakes.testnet'',
               Some \<lparr> info_symbol = Some ''WBTC'', info_price = Some ''101700'',
                      info_decimal = Some 8 \<rparr>)]"
  have h1: "?pf ''101700'' = Some 101700" by simp
  have h2: "?pf ''0.999892'' = Some (999892 / 1000000)" by simp
  have h3: "(0::rat) < 999892 / 1000000" by simp
  have h4: "(999892 / 1000000 :: rat) \<le> 101700" by simp
  have ev: "map token_account_id
      (fetchAvailableTokens ?pf (\<lambda>tokenId. True) ?indexer (Inl NonError)) =
      [''wbtc.fakes.testnet'', ''usdt.fakes.testnet'']"
    by (simp add: fetchAvailableTokens_def fetch_live_def token_of_entry_def js_sort_def
        positive_price_def price_desc_def WRAP_NEAR_TOKEN_def Let_def)
  from fetchAvailableTokens_capped_sorted_positive
    [of ?pf 101700 "999892 / 1000000" "\<lambda>tokenId. True" ?indexer "Inl NonError", OF h1 h2 h3 h4]
  have srt: "sorted_by_price_desc ?pf
      (fetchAvailableTokens ?pf (\<lambda>tokenId. True) ?indexer (Inl NonError))"
    by blast
  show ?thesis
    by (intro conjI) (rule h1, rule h2, rule h3, rule h4, rule ev, rule srt)
qed

section \<open>When the catalog has an entry\<close>








section \<open>Properties of the swap estimate\<close>

lemma convertScientificToString_plain:
  "\<not> has_exponent_marker val \<Longrightarrow> convertScientificToString fullwide val = Inr val"
  by (simp add: convertScientificToString_def)

lemma convertScientificToString_again:
  assumes "convertScientificToString fullwide val = Inr printed"
    and "\<not> has_exponent_marker (fullwide val)"
  shows "convertScientificToString fullwide printed = Inr printed"
proof (cases "has_exponent_marker val")
  case False
  with assms(1) show ?thesis by (simp add: convertScientificToString_def)
next
  case True
  with assms(1) have "printed = fullwide val"
    by (simp add: convertScientificToString_def split: if_splits)
  with assms(2) show ?thesis by (simp add: convertScientificToString_def)
qed


lemma apply_slippage_nonneg:
  assumes "0 \<le> quote"
  shows "apply_slippage quote = quote * 99 div 100"
proof -
  have "quote * 99 = 0 \<or> 0 < quote * 99"
    using assms by auto
  then show ?thesis
    by (auto simp: apply_slippage_def signed_divide_int_eq_divide_int)
qed

lemma floor_99_100: "\<lfloor>(of_int quote * 99 / 100 :: real)\<rfloor> = quote * 99 div 100"
proof -
  have "(of_int quote * 99 / 100 :: real) = of_int (quote * 99) / of_int 100"
    by simp
  then show ?thesis
    by (simp only: floor_divide_of_int_eq)
qed

lemma estimateSwap_from_quote:
  assumes "estimateSwap rpc get_return fullwide inputTokenId amount outputTokenId = Inr estimate"
  shows "\<exists>poolId amountStr quote.
           findPool rpc inputTokenId outputTokenId = Some poolId \<and>
           convertScientificToString fullwide amount = Inr amountStr \<and>
           get_return poolId inputTokenId amountStr outputTokenId = Inr (expectedOutput estimate) \<and>
           BigInt (expectedOutput estimate) = Some quote \<and>
           minimumOutput estimate = string_of_int (apply_slippage quote)"
proof (cases "findPool rpc inputTokenId outputTokenId")
  case None
  with assms show ?thesis by (simp add: estimateSwap_def)
next
  case (Some poolId)
  show ?thesis
  proof (cases "convertScientificToString fullwide amount")
    case (Inl e)
    with assms Some show ?thesis by (simp add: estimateSwap_def)
  next
    case (Inr amountStr)
    show ?thesis
    proof (cases "get_return poolId inputTokenId amountStr outputTokenId")
      case (Inl e)
      with assms Some Inr show ?thesis by (simp add: estimateSwap_def)
    next
      case q: (Inr quoted)
      show ?thesis
      proof (cases "BigInt quoted")
        case None
        with assms Some Inr q show ?thesis by (simp add: estimateSwap_def)
      next
        case quote: (Some quote)
        from assms Some Inr q quote have
          "estimate = \<lparr> inputToken = inputTokenId, outputToken = outputTokenId,
              inputAmount = amount, expectedOutput = quoted,
              minimumOutput = string_of_int (apply_slippage quote),
              priceImpact = ''0.5'', est_pool = [digits_of poolId] \<rparr>"
          by (simp add: estimateSwap_def)
        then have "expectedOutput estimate = quoted"
          and "minimumOutput estimate = string_of_int (apply_slippage quote)"
          by simp_all
        with Some Inr q quote show ?thesis by simp
      qed
    qed
  qed
qed

text \<open>
  C6. When the pool is found, the input amount is normalised and the DEX answers
  \<open>get_return\<close> with a text that \<open>BigInt\<close> reads as an integer \<open>quote \<ge> 0\<close>,
  \<open>estimateSwap\<close> returns the estimate whose expected output is that answer and whose
  minimum output is the decimal text of the floor of \<open>quote * 99 / 100\<close>, which is
  \<open>quote * 99 div 100\<close> on integers and the value of the BigInt expression of line 170.
  Conversely, every estimate that \<open>estimateSwap\<close> returns carries an answer of
  \<open>get_return\<close> for the found pool and the normalised amount, and its minimum output is
  computed from that answer.
\<close>

theorem estimateSwap_minimumOutput_floor:
  "(findPool rpc inputTokenId outputTokenId = Some poolId \<and>
    convertScientificToString fullwide amount = Inr amountStr \<and>
    get_return poolId inputTokenId amountStr outputTokenId = Inr quoted \<and>
    BigInt quoted = Some quote \<and> 0 \<le> quote \<longrightarrow>
      estimateSwap rpc get_return fullwide inputTokenId amount outputTokenId =
        Inr \<lparr> inputToken = inputTokenId, outputToken = outputTokenId,
              inputAmount = amount, expectedOutput = quoted,
              minimumOutput = string_of_int \<lfloor>(of_int quote * 99 / 100 :: real)\<rfloor>,
              priceImpact = ''0.5'', est_pool = [digits_of poolId] \<rparr> \<and>
      apply_slippage quote = \<lfloor>(of_int quote * 99 / 100 :: real)\<rfloor> \<and>
      \<lfloor>(of_int quote * 99 / 100 :: real)\<rfloor> = quote * 99 div 100) \<and>
   (estimateSwap rpc get_return fullwide inputTokenId amount outputTokenId = Inr estimate \<longrightarrow>
      (\<exists>pool' amount' quote'.
         findPool rpc inputTokenId outputTokenId = Some pool' \<and>
         convertScientificToString fullwide amount = Inr amount' \<and>
         get_return pool' inputTokenId amount' outputTokenId = Inr (expectedOutput estimate) \<and>
         BigInt (expectedOutput estimate) = Some quote' \<and>
         minimumOutput estimate = string_of_int (apply_slippage quote') \<and>
         (0 \<le> quote' \<longrightarrow>
            apply_slippage quote' = \<lfloor>(of_int quote' * 99 / 100 :: real)\<rfloor>)))"
proof (intro conjI impI)
  assume a: "findPool rpc inputTokenId outputTokenId = Some poolId \<and>
    convertScientificToString fullwide amount = Inr amountStr \<and>
    get_return poolId inputTokenId amountStr outputTokenId = Inr quoted \<and>
    BigInt quoted = Some quote \<and> 0 \<le> quote"
  then have s: "apply_slippage quote = quote * 99 div 100"
    by (simp add: apply_slippage_nonneg)
  show f: "\<lfloor>(of_int quote * 99 / 100 :: real)\<rfloor> = quote * 99 div 100"
    by (rule floor_99_100)
  from s f show sf: "apply_slippage quote = \<lfloor>(of_int quote * 99 / 100 :: real)\<rfloor>"
    by simp
  from a have "estimateSwap rpc get_return fullwide inputTokenId amount outputTokenId =
        Inr \<lparr> inputToken = inputTokenId, outputToken = outputTokenId,
              inputAmount = amount, expectedOutput = quoted,
              minimumOutput = string_of_int (apply_slippage quote),
              priceImpact = ''0.5'', est_pool = [digits_of poolId] \<rparr>"
    by (simp add: estimateSwap_def)
  then show "estimateSwap rpc get_return fullwide inputTokenId amount outputTokenId =
        Inr \<lparr> inputToken = inputTokenId, outputToken = outputTokenId,
              inputAmount = amount, expectedOutput = quoted,
              minimumOutput = string_of_int \<lfloor>(of_int quote * 99 / 100 :: real)\<rfloor>,
              priceImpact = ''0.5'', est_pool = [digits_of poolId] \<rparr>"
    by (simp only: sf)
next
  assume "estimateSwap rpc get_return fullwide inputTokenId amount outputTokenId = Inr estimate"
  from estimateSwap_from_quote [OF this]
  obtain pool' amount' quote' where
    r: "findPool rpc inputTokenId outputTokenId = Some pool'"
       "convertScientificToString fullwide amount = Inr amount'"
       "get_return pool' inputTokenId amount' outputTokenId = Inr (expectedOutput estimate)"
       "BigInt (expectedOutput estimate) = Some quote'"
       "minimumOutput estimate = string_of_int (apply_slippage quote')"
    by blast
  have "0 \<le> quote' \<longrightarrow> apply_slippage quote' = \<lfloor>(of_int quote' * 99 / 100 :: real)\<rfloor>"
    by (simp add: apply_slippage_nonneg floor_99_100)
  with r show "\<exists>pool' amount' quote'.
         findPool rpc inputTokenId outputTokenId = Some pool' \<and>
         convertScientificToString fullwide amount = Inr amount' \<and>
         get_return pool' inputTokenId amount' outputTokenId = Inr (expectedOutput estimate) \<and>
         BigInt (expectedOutput estimate) = Some quote' \<and>
         minimumOutput estimate = string_of_int (apply_slippage quote') \<and>
         (0 \<le> quote' \<longrightarrow>
            apply_slippage quote' = \<lfloor>(of_int quote' * 99 / 100 :: real)\<rfloor>)"
    by blast
qed

theorem estimateSwap_minimumOutput_floor_witness:
  "findPool
     (registry_rpc
        [\<lparr> token_account_ids = [''ref.testnet'', ''usdc.testnet''] \<rparr>,
         \<lparr> token_account_ids = [''wrap.testnet'', ''usdt.fakes.testnet''] \<rparr>])
     ''wrap.testnet'' ''usdt.fakes.testnet'' = Some 1 \<and>
   convertScientificToString (\<lambda>s. s) ''500000000000000000000000'' =
     Inr ''500000000000000000000000'' \<and>
   (\<lambda>poolId tokenIn amountIn tokenOut.
       if poolId = 1 \<and> amountIn = ''500000000000000000000000'' then Inr ''2050''
       else Inl (JsError ''no such pool''))
     (1::nat) ''wrap.testnet'' ''500000000000000000000000'' ''usdt.fakes.testnet'' = Inr ''2050'' \<and>
   BigInt ''2050'' = Some 2050 \<and> (0::int) \<le> 2050 \<and>
   estimateSwap
     (registry_rpc
        [\<lparr> token_account_ids = [''ref.testnet'', ''usdc.testnet''] \<rparr>,
         \<lparr> token_account_ids = [''wrap.testnet'', ''usdt.fakes.testnet''] \<rparr>])
     (\<lambda>poolId tokenIn amountIn tokenOut.
         if poolId = 1 \<and> amountIn = ''500000000000000000000000'' then Inr ''2050''
         else Inl (JsError ''no such pool''))
     (\<lambda>s. s)
     ''wrap.testnet'' ''500000000000000000000000'' ''usdt.fakes.testnet'' =
     Inr \<lparr> inputToken = ''wrap.testnet'', outputToken = ''usdt.fakes.testnet'',
           inputAmount = ''500000000000000000000000'', expectedOutput = ''2050'',
           minimumOutput = ''2029'', priceImpact = ''0.5'', est_pool = [''1''] \<rparr> \<and>
   apply_slippage 2050 = 2029 \<and>
   \<lfloor>(of_int 2050 * 99 / 100 :: real)\<rfloor> = 2029"
proof -
  let ?rpc = "registry_rpc
        [\<lparr> token_account_ids = [''ref.testnet'', ''usdc.testnet''] \<rparr>,
         \<lparr> token_account_ids = [''wrap.testnet'', ''usdt.fakes.testnet''] \<rparr>]"
  let ?get_return = "\<lambda>(poolId::nat) (tokenIn::string) amountIn (tokenOut::string).
       if poolId = 1 \<and> amountIn = ''500000000000000000000000'' then Inr ''2050''
       else Inl (JsError ''no such pool'')"
  have h1: "findPool ?rpc ''wrap.testnet'' ''usdt.fakes.testnet'' = Some 1"
    by code_simp
  have h2: "convertScientificToString (\<lambda>s. s) ''500000000000000000000000'' =
      Inr ''500000000000000000000000''"
    by (simp add: convertScientificToString_def has_exponent_marker_def)
  have h3: "?get_return 1 ''wrap.testnet'' ''500000000000000000000000'' ''usdt.fakes.testnet'' =
      Inr ''2050''"
    by simp
  have h4: "BigInt ''2050'' = Some 2050"
    by (simp add: BigInt_def trim_def is_space_def parse_unsigned_def digit_value_def
        lower_char_def)
  have h5: "(0::int) \<le> 2050" by simp
  have h: "findPool ?rpc ''wrap.testnet'' ''usdt.fakes.testnet'' = Some 1 \<and>
      convertScientificToString (\<lambda>s. s) ''500000000000000000000000'' =
        Inr ''500000000000000000000000'' \<and>
      ?get_return 1 ''wrap.testnet'' ''500000000000000000000000'' ''usdt.fakes.testnet'' =
        Inr ''2050'' \<and>
      BigInt ''2050'' = Some 2050 \<and> (0::int) \<le> 2050"
    by (intro conjI) (rule h1, rule h2, rule h3, rule h4, rule h5)
  note t = estimateSwap_minimumOutput_floor
    [where rpc = ?rpc and get_return = ?get_return and fullwide = "\<lambda>s. s"
       and inputTokenId = "''wrap.testnet''" and outputTokenId = "''usdt.fakes.testnet''"
       and amount = "''500000000000000000000000''" and poolId = 1
       and amountStr = "''500000000000000000000000''" and quoted = "''2050''" and quote = 2050,
     THEN conjunct1, THEN mp, OF h]
  from t have fl: "\<lfloor>(of_int 2050 * 99 / 100 :: real)\<rfloor> = 2050 * 99 div 100"
    and sl: "apply_slippage 2050 = \<lfloor>(of_int 2050 * 99 / 100 :: real)\<rfloor>"
    by blast+
  from fl have f: "\<lfloor>(of_int 2050 * 99 / 100 :: real)\<rfloor> = 2029" by simp
  from sl f have v: "apply_slippage 2050 = 2029" by simp
  have str: "string_of_int 2029 = ''2029''"
    by (simp add: string_of_int_def digits_of.simps digit_char_def)
  have dig: "digits_of 1 = ''1''"
    by (simp add: digits_of.simps digit_char_def)
  from t have "estimateSwap ?rpc ?get_return (\<lambda>s. s)
      ''wrap.testnet'' ''500000000000000000000000'' ''usdt.fakes.testnet'' =
      Inr \<lparr> inputToken = ''wrap.testnet'', outputToken = ''usdt.fakes.testnet'',
            inputAmount = ''500000000000000000000000'', expectedOutput = ''2050'',
            minimumOutput = string_of_int \<lfloor>(of_int 2050 * 99 / 100 :: real)\<rfloor>,
            priceImpact = ''0.5'', est_pool = [digits_of 1] \<rparr>"
    by blast
  then have ev: "estimateSwap ?rpc ?get_return (\<lambda>s. s)
      ''wrap.testnet'' ''500000000000000000000000'' ''usdt.fakes.testnet'' =
      Inr \<lparr> inputToken = ''wrap.testnet'', outputToken = ''usdt.fakes.testnet'',
            inputAmount = ''500000000000000000000000'', expectedOutput = ''2050'',
            minimumOutput = ''2029'', priceImpact = ''0.5'', est_pool = [''1''] \<rparr>"
    by (simp only: f str dig)
  show ?thesis
    by (intro conjI) (rule h1, rule h2, rule h3, rule h4, rule h5, rule ev, rule v, rule f)
qed

section \<open>Properties of the swap executor\<close>

lemma poll_finality_exhausted:
  "(\<forall>a. attempts \<le> a \<and> a < maxAttempts \<longrightarrow> status_at a \<noteq> SuccessValue) \<Longrightarrow>
   attempts \<le> maxAttempts \<Longrightarrow>
   poll_finality status_at maxAttempts attempts = maxAttempts"
proof (induction status_at maxAttempts attempts rule: poll_finality.induct)
  case (1 status_at maxAttempts attempts)
  show ?case
  proof (cases "attempts < maxAttempts")
    case False
    with "1.prems"(2) show ?thesis by simp
  next
    case True
    with "1.prems"(1) have ns: "status_at attempts \<noteq> SuccessValue" by simp
    have "poll_finality status_at maxAttempts (Suc attempts) = maxAttempts"
    proof (rule "1.IH" [OF True ns])
      show "\<forall>a. Suc attempts \<le> a \<and> a < maxAttempts \<longrightarrow> status_at a \<noteq> SuccessValue"
        using "1.prems"(1) by simp
      show "Suc attempts \<le> maxAttempts" using True by simp
    qed
    with True ns show ?thesis by simp
  qed
qed

lemma poll_finality_success:
  "attempts \<le> a \<Longrightarrow> a < maxAttempts \<Longrightarrow> status_at a = SuccessValue \<Longrightarrow>
   poll_finality status_at maxAttempts attempts < maxAttempts"
proof (induction status_at maxAttempts attempts rule: poll_finality.induct)
  case (1 status_at maxAttempts attempts)
  from "1.prems" have lt: "attempts < maxAttempts" by simp
  show ?case
  proof (cases "status_at attempts = SuccessValue")
    case True
    with lt show ?thesis by simp
  next
    case False
    with "1.prems" have "attempts \<noteq> a" by auto
    with "1.prems"(1) have "Suc attempts \<le> a" by simp
    from "1.IH" [OF lt False this "1.prems"(2) "1.prems"(3)]
    have "poll_finality status_at maxAttempts (Suc attempts) < maxAttempts" .
    with lt False show ?thesis by simp
  qed
qed

lemma submit_all_poll_exhausted:
  assumes "rest \<noteq> []"
    and "convert_actions (actions tx) = Inr converted"
    and "signAndSendTransaction env i = Inr txHash"
    and "\<forall>attempt < 30. txStatus env i attempt \<noteq> SuccessValue"
  shows "submit_all env i (tx # rest) txHashes sent = (Suc sent, Inl (not_finalized txHash))"
proof -
  have "poll_finality (txStatus env i) 30 0 = 30"
    using assms(4) by (intro poll_finality_exhausted) simp_all
  with assms(1-3) show ?thesis by simp
qed

lemma submit_all_prefix:
  assumes "\<forall>k < length pre.
      (\<exists>c. convert_actions (actions (pre ! k)) = Inr c) \<and>
      (\<exists>h. signAndSendTransaction env (i + k) = Inr h) \<and>
      (\<exists>a < 30. txStatus env (i + k) a = SuccessValue)"
  shows "\<exists>hs. submit_all env i (pre @ tx # rest) txHashes sent =
              submit_all env (i + length pre) (tx # rest) (txHashes @ hs) (sent + length pre)"
  using assms
proof (induction pre arbitrary: i txHashes sent)
  case Nil
  have "submit_all env i ([] @ tx # rest) txHashes sent =
        submit_all env (i + length ([] :: transaction list)) (tx # rest) (txHashes @ []) (sent + length ([] :: transaction list))"
    by simp
  then show ?case by blast
next
  case (Cons p ps)
  from Cons.prems have "0 < length (p # ps)" by simp
  with Cons.prems have first: "(\<exists>c. convert_actions (actions ((p # ps) ! 0)) = Inr c) \<and>
      (\<exists>h. signAndSendTransaction env (i + 0) = Inr h) \<and>
      (\<exists>a < 30. txStatus env (i + 0) a = SuccessValue)"
    by blast
  then obtain c h a where c: "convert_actions (actions p) = Inr c"
    and h: "signAndSendTransaction env i = Inr h"
    and a: "a < 30" "txStatus env i a = SuccessValue"
    by auto
  have poll: "poll_finality (txStatus env i) 30 0 < 30"
    using a by (intro poll_finality_success [of 0 a]) simp_all
  have step: "submit_all env i ((p # ps) @ tx # rest) txHashes sent =
              submit_all env (Suc i) (ps @ tx # rest) (txHashes @ [h]) (Suc sent)"
    using c h poll by simp
  have rest': "\<forall>k < length ps.
      (\<exists>c. convert_actions (actions (ps ! k)) = Inr c) \<and>
      (\<exists>h. signAndSendTransaction env (Suc i + k) = Inr h) \<and>
      (\<exists>a < 30. txStatus env (Suc i + k) a = SuccessValue)"
  proof (intro allI impI)
    fix k assume "k < length ps"
    then have "Suc k < length (p # ps)" by simp
    with Cons.prems have "(\<exists>c. convert_actions (actions ((p # ps) ! Suc k)) = Inr c) \<and>
      (\<exists>h. signAndSendTransaction env (i + Suc k) = Inr h) \<and>
      (\<exists>a < 30. txStatus env (i + Suc k) a = SuccessValue)"
      by blast
    then show "(\<exists>c. convert_actions (actions (ps ! k)) = Inr c) \<and>
      (\<exists>h. signAndSendTransaction env (Suc i + k) = Inr h) \<and>
      (\<exists>a < 30. txStatus env (Suc i + k) a = SuccessValue)"
      by simp
  qed
  from Cons.IH [OF rest', of "txHashes @ [h]" "Suc sent"]
  obtain hs where "submit_all env (Suc i) (ps @ tx # rest) (txHashes @ [h]) (Suc sent) =
      submit_all env (Suc i + length ps) (tx # rest) ((txHashes @ [h]) @ hs) (Suc sent + length ps)"
    by blast
  with step have "submit_all env i ((p # ps) @ tx # rest) txHashes sent =
      submit_all env (i + length (p # ps)) (tx # rest) (txHashes @ (h # hs)) (sent + length (p # ps))"
    by simp
  then show ?case by blast
qed

lemma starts_with_self: "starts_with s s"
  by (induction s) simp_all

lemma str_includes_self: "str_includes s s"
  by (cases s) (simp_all add: starts_with_self)

lemma str_includes_append_left: "str_includes ys sub \<Longrightarrow> str_includes (xs @ ys) sub"
  by (induction xs) simp_all

lemma not_finalized_message:
  "str_includes (error_message (not_finalized txHash)) ''did not finalize in time''"
proof -
  have "str_includes ('' '' @ ''did not finalize in time'') ''did not finalize in time''"
    by (rule str_includes_append_left) (rule str_includes_self)
  then have "str_includes ((''Transaction '' @ txHash) @ ('' '' @ ''did not finalize in time''))
      ''did not finalize in time''"
    by (rule str_includes_append_left)
  then show ?thesis by (simp add: not_finalized_def)
qed

lemma prepare_swap_unreadable_balance:
  assumes "connect_account env = None"
    and "parseNearAmount env amountInNear = Inr (Some wrapAmount)"
    and "wrapAmount \<noteq> []"
    and "BigInt wrapAmount = Some yocto"
    and "send_near_deposit env = Inr wrapHash"
    and "ft_balance_of env = Inr wNearBalance"
    and "BigInt wNearBalance = None"
  shows "prepare_swap env accountId prediction amountInNear =
         Inl (JsError ''Cannot convert to a BigInt'')"
  using assms by (simp add: prepare_swap_def)

text \<open>
  C3. In the submission loop of \<open>executeTokenSwap\<close>, let the transaction at position
  \<open>length pre\<close> be one that is not the last, reached after every earlier transaction
  was sent and seen final. If it is sent and none of the 30 status polls observes a
  success status, then the loop stops there: the swap returns \<open>success = false\<close> with
  the error "Transaction <hash> did not finalize in time", and the loop has made
  \<open>length pre + 1\<close> calls of \<open>signAndSendTransaction\<close>, so no later transaction is
  submitted.
\<close>

theorem executeTokenSwap_aborts_when_not_final:
  "prepare_swap env accountId prediction amountInNear = Inr (wrapHash, pre @ tx # rest) \<and>
   rest \<noteq> [] \<and>
   (\<forall>k < length pre.
      (\<exists>c. convert_actions (actions (pre ! k)) = Inr c) \<and>
      (\<exists>h. signAndSendTransaction env k = Inr h) \<and>
      (\<exists>a < 30. txStatus env k a = SuccessValue)) \<and>
   convert_actions (actions tx) = Inr converted \<and>
   signAndSendTransaction env (length pre) = Inr txHash \<and>
   (\<forall>attempt < 30. txStatus env (length pre) attempt \<noteq> SuccessValue) \<longrightarrow>
     executeTokenSwap env accountId prediction amountInNear =
       \<lparr> success = False, transactionHash = None,
         error = Some (''Transaction '' @ txHash @ '' did not finalize in time''),
         amountSwapped = None \<rparr> \<and>
     str_includes (''Transaction '' @ txHash @ '' did not finalize in time'')
       ''did not finalize in time'' \<and>
     loop_calls_sent env accountId prediction amountInNear = Suc (length pre)"
proof
  assume a: "prepare_swap env accountId prediction amountInNear = Inr (wrapHash, pre @ tx # rest) \<and>
   rest \<noteq> [] \<and>
   (\<forall>k < length pre.
      (\<exists>c. convert_actions (actions (pre ! k)) = Inr c) \<and>
      (\<exists>h. signAndSendTransaction env k = Inr h) \<and>
      (\<exists>a < 30. txStatus env k a = SuccessValue)) \<and>
   convert_actions (actions tx) = Inr converted \<and>
   signAndSendTransaction env (length pre) = Inr txHash \<and>
   (\<forall>attempt < 30. txStatus env (length pre) attempt \<noteq> SuccessValue)"
  then have pre: "\<forall>k < length pre.
      (\<exists>c. convert_actions (actions (pre ! k)) = Inr c) \<and>
      (\<exists>h. signAndSendTransaction env (0 + k) = Inr h) \<and>
      (\<exists>a < 30. txStatus env (0 + k) a = SuccessValue)"
    by simp
  from submit_all_prefix [OF pre, of tx rest "[wrapHash]" 0]
  obtain hs where "submit_all env 0 (pre @ tx # rest) [wrapHash] 0 =
      submit_all env (length pre) (tx # rest) ([wrapHash] @ hs) (length pre)"
    by auto
  moreover have "submit_all env (length pre) (tx # rest) ([wrapHash] @ hs) (length pre) =
      (Suc (length pre), Inl (not_finalized txHash))"
    using a by (intro submit_all_poll_exhausted [of rest tx converted]) blast+
  ultimately have loop: "submit_all env 0 (pre @ tx # rest) [wrapHash] 0 =
      (Suc (length pre), Inl (not_finalized txHash))"
    by simp
  from a have prep: "prepare_swap env accountId prediction amountInNear =
      Inr (wrapHash, pre @ tx # rest)"
    by blast
  have body: "executeTokenSwap_body env accountId prediction amountInNear =
      (Suc (length pre), Inl (not_finalized txHash))"
    by (simp add: executeTokenSwap_body_def prep loop)
  have r1: "executeTokenSwap env accountId prediction amountInNear =
       \<lparr> success = False, transactionHash = None,
         error = Some (''Transaction '' @ txHash @ '' did not finalize in time''),
         amountSwapped = None \<rparr>"
    by (simp add: executeTokenSwap_def body not_finalized_def)
  have r2: "str_includes (''Transaction '' @ txHash @ '' did not finalize in time'')
       ''did not finalize in time''"
    using not_finalized_message [of txHash] by (simp add: not_finalized_def)
  have r3: "loop_calls_sent env accountId prediction amountInNear = Suc (length pre)"
    by (simp add: loop_calls_sent_def body)
  from r1 r2 r3 show "executeTokenSwap env accountId prediction amountInNear =
       \<lparr> success = False, transactionHash = None,
         error = Some (''Transaction '' @ txHash @ '' did not finalize in time''),
         amountSwapped = None \<rparr> \<and>
     str_includes (''Transaction '' @ txHash @ '' did not finalize in time'')
       ''did not finalize in time'' \<and>
     loop_calls_sent env accountId prediction amountInNear = Suc (length pre)"
    by (intro conjI)
qed


theorem executeTokenSwap_aborts_when_not_final_witness:
  "prepare_swap
     \<lparr> connect_account = None,
       parseNearAmount = (\<lambda>amount. Inr (Some ''500000000000000000000000'')),
       send_near_deposit = Inr ''WrapTx'',
       ft_balance_of = Inr ''500000000000000000000000'',
       estimate_rpc = registry_rpc [\<lparr> token_account_ids = [''wrap.testnet'', ''usdt.fakes.testnet''] \<rparr>],
       estimate_get_return = (\<lambda>poolId tokenIn amountIn tokenOut. Inr ''1050''),
       generate_rpc = registry_rpc [\<lparr> token_account_ids = [''wrap.testnet'', ''usdt.fakes.testnet''] \<rparr>],
       fullwide_text = (\<lambda>s. s),
       signAndSendTransaction = (\<lambda>i. Inr (if i = 0 then ''StorageTx'' else ''SwapTx'')),
       txStatus = (\<lambda>i attempt. OtherStatus) \<rparr>
     ''agent.testnet''
     \<lparr> selectedToken = ''usdt.fakes.testnet'', pred_symbol = ''USDT.e'', reasoning = ''stable'',
       confidence = Some (1 / 2), pred_price = ''0.999892'' \<rparr>
     ''0.5'' =
     Inr (''WrapTx'',
          [] @
          \<lparr> receiverId = ''usdt.fakes.testnet'',
            actions = [FunctionCall ''storage_deposit''
                         (StorageDepositArgs (Some ''agent.testnet'') True)
                         ''30000000000000'' ''1250000000000000000000''] \<rparr> #
          [\<lparr> receiverId = ''wrap.testnet'',
             actions = [FunctionCall ''ft_transfer_call''
                          (FtTransferCallArgs ''ref-finance-101.testnet'' ''500000000000000000000000''
                             \<lparr> force = 0, referral_id = None,
                               msg_actions =
                                 [\<lparr> pool_id = 0, token_in = ''wrap.testnet'',
                                    token_out = ''usdt.fakes.testnet'',
                                    amount_in = ''500000000000000000000000'',
                                    min_amount_out = ''1039'' \<rparr>] \<rparr>)
                          ''180000000000000'' ''1''] \<rparr>]) \<and>
   executeTokenSwap
     \<lparr> connect_account = None,
       parseNearAmount = (\<lambda>amount. Inr (Some ''500000000000000000000000'')),
       send_near_deposit = Inr ''WrapTx'',
       ft_balance_of = Inr ''500000000000000000000000'',
       estimate_rpc = registry_rpc [\<lparr> token_account_ids = [''wrap.testnet'', ''usdt.fakes.testnet''] \<rparr>],
       estimate_get_return = (\<lambda>poolId tokenIn amountIn tokenOut. Inr ''1050''),
       generate_rpc = registry_rpc [\<lparr> token_account_ids = [''wrap.testnet'', ''usdt.fakes.testnet''] \<rparr>],
       fullwide_text = (\<lambda>s. s),
       signAndSendTransaction = (\<lambda>i. Inr (if i = 0 then ''StorageTx'' else ''SwapTx'')),
       txStatus = (\<lambda>i attempt. OtherStatus) \<rparr>
     ''agent.testnet''
     \<lparr> selectedToken = ''usdt.fakes.testnet'', pred_symbol = ''USDT.e'', reasoning = ''stable'',
       confidence = Some (1 / 2), pred_price = ''0.999892'' \<rparr>
     ''0.5'' =
     \<lparr> success = False, transactionHash = None,
       error = Some ''Transaction StorageTx did not finalize in time'', amountSwapped = None \<rparr> \<and>
   loop_calls_sent
     \<lparr> connect_account = None,
       parseNearAmount = (\<lambda>amount. Inr (Some ''500000000000000000000000'')),
       send_near_deposit = Inr ''WrapTx'',
       ft_balance_of = Inr ''500000000000000000000000'',
       estimate_rpc = registry_rpc [\<lparr> token_account_ids = [''wrap.testnet'', ''usdt.fakes.testnet''] \<rparr>],
       estimate_get_return = (\<lambda>poolId tokenIn amountIn tokenOut. Inr ''1050''),
       generate_rpc = registry_rpc [\<lparr> token_account_ids = [''wrap.testnet'', ''usdt.fakes.testnet''] \<rparr>],
       fullwide_text = (\<lambda>s. s),
       signAndSendTransaction = (\<lambda>i. Inr (if i = 0 then ''StorageTx'' else ''SwapTx'')),
       txStatus = (\<lambda>i attempt. OtherStatus) \<rparr>
     ''agent.testnet''
     \<lparr> selectedToken = ''usdt.fakes.testnet'', pred_symbol = ''USDT.e'', reasoning = ''stable'',
       confidence = Some (1 / 2), pred_price = ''0.999892'' \<rparr>
     ''0.5'' = 1"
proof -
  let ?env = "\<lparr> connect_account = None,
       parseNearAmount = (\<lambda>amount. Inr (Some ''500000000000000000000000'')),
       send_near_deposit = Inr ''WrapTx'',
       ft_balance_of = Inr ''500000000000000000000000'',
       estimate_rpc = registry_rpc [\<lparr> token_account_ids = [''wrap.testnet'', ''usdt.fakes.testnet''] \<rparr>],
       estimate_get_return = (\<lambda>poolId tokenIn amountIn tokenOut. Inr ''1050''),
       generate_rpc = registry_rpc [\<lparr> token_account_ids = [''wrap.testnet'', ''usdt.fakes.testnet''] \<rparr>],
       fullwide_text = (\<lambda>s. s),
       signAndSendTransaction = (\<lambda>i. Inr (if i = 0 then ''StorageTx'' else ''SwapTx'')),
       txStatus = (\<lambda>i attempt. OtherStatus) \<rparr>"
  let ?prediction = "\<lparr> selectedToken = ''usdt.fakes.testnet'', pred_symbol = ''USDT.e'',
       reasoning = ''stable'', confidence = Some (1 / 2), pred_price = ''0.999892'' \<rparr>"
  let ?tx = "\<lparr> receiverId = ''usdt.fakes.testnet'',
            actions = [FunctionCall ''storage_deposit''
                         (StorageDepositArgs (Some ''agent.testnet'') True)
                         ''30000000000000'' ''1250000000000000000000''] \<rparr>"
  let ?rest = "[\<lparr> receiverId = ''wrap.testnet'',
             actions = [FunctionCall ''ft_transfer_call''
                          (FtTransferCallArgs ''ref-finance-101.testnet'' ''500000000000000000000000''
                             \<lparr> force = 0, referral_id = None,
                               msg_actions =
                                 [\<lparr> pool_id = 0, token_in = ''wrap.testnet'',
                                    token_out = ''usdt.fakes.testnet'',
                                    amount_in = ''500000000000000000000000'',
                                    min_amount_out = ''1039'' \<rparr>] \<rparr>)
                          ''180000000000000'' ''1''] \<rparr>]"
  let ?rpc = "registry_rpc [\<lparr> token_account_ids = [''wrap.testnet'', ''usdt.fakes.testnet''] \<rparr>]"
  have est: "estimateSwap ?rpc (\<lambda>poolId tokenIn amountIn tokenOut. Inr ''1050'') (\<lambda>s. s)
      ''wrap.testnet'' ''500000000000000000000000'' ''usdt.fakes.testnet'' =
      Inr \<lparr> inputToken = ''wrap.testnet'', outputToken = ''usdt.fakes.testnet'',
            inputAmount = ''500000000000000000000000'', expectedOutput = ''1050'',
            minimumOutput = ''1039'', priceImpact = ''0.5'', est_pool = [''0''] \<rparr>"
    by code_simp
  have gen: "generateSwapTransaction ?rpc (\<lambda>s. s) ''wrap.testnet'' ''500000000000000000000000''
      ''usdt.fakes.testnet'' ''1039'' (Some ''agent.testnet'') False None = Inr (?tx # ?rest)"
    by code_simp
  have big: "BigInt ''500000000000000000000000'' = Some 500000000000000000000000"
    by (simp add: BigInt_def trim_def is_space_def parse_unsigned_def digit_value_def
        lower_char_def)
  have prep: "prepare_swap ?env ''agent.testnet'' ?prediction ''0.5'' =
      Inr (''WrapTx'', [] @ ?tx # ?rest)"
    by (simp add: prepare_swap_def NEAR_TOKEN_def Let_def est gen big)
  have conv: "convert_actions (actions ?tx) =
      Inr [(''storage_deposit'', StorageDepositArgs (Some ''agent.testnet'') True,
            30000000000000, 1250000000000000000000)]"
    by (simp add: BigInt_def trim_def is_space_def parse_unsigned_def digit_value_def
        lower_char_def)
  have h: "prepare_swap ?env ''agent.testnet'' ?prediction ''0.5'' =
        Inr (''WrapTx'', [] @ ?tx # ?rest) \<and>
      ?rest \<noteq> [] \<and>
      (\<forall>k < length ([] :: transaction list).
         (\<exists>c. convert_actions (actions ([] ! k)) = Inr c) \<and>
         (\<exists>h. signAndSendTransaction ?env k = Inr h) \<and>
         (\<exists>a < 30. txStatus ?env k a = SuccessValue)) \<and>
      convert_actions (actions ?tx) =
        Inr [(''storage_deposit'', StorageDepositArgs (Some ''agent.testnet'') True,
              30000000000000, 1250000000000000000000)] \<and>
      signAndSendTransaction ?env (length ([] :: transaction list)) = Inr ''StorageTx'' \<and>
      (\<forall>attempt < 30. txStatus ?env (length ([] :: transaction list)) attempt \<noteq> SuccessValue)"
    using prep conv by simp
  from executeTokenSwap_aborts_when_not_final [THEN mp, OF h]
  have r1: "executeTokenSwap ?env ''agent.testnet'' ?prediction ''0.5'' =
      \<lparr> success = False, transactionHash = None,
        error = Some (''Transaction '' @ ''StorageTx'' @ '' did not finalize in time''),
        amountSwapped = None \<rparr>"
    and r3: "loop_calls_sent ?env ''agent.testnet'' ?prediction ''0.5'' =
      Suc (length ([] :: transaction list))"
    by blast+
  from r1 have r1': "executeTokenSwap ?env ''agent.testnet'' ?prediction ''0.5'' =
      \<lparr> success = False, transactionHash = None,
        error = Some ''Transaction StorageTx did not finalize in time'', amountSwapped = None \<rparr>"
    by simp
  from r3 have r3': "loop_calls_sent ?env ''agent.testnet'' ?prediction ''0.5'' = 1"
    by simp
  show ?thesis
    by (intro conjI) (rule prep, rule r1', rule r3')
qed

section \<open>Properties of the orchestrator\<close>

lemma executeAgent_try_reaches_end:
  assumes "getAgentWithPrivateKey env = Inr (Some agent)"
    and "agent_status agent = ''active''"
    and "fetchAccountBalance env = Inr balance"
    and "prediction_result env = Inr prediction"
  shows "snd (executeAgent_try env now agentId' db) = None"
  using assms
  by (simp add: executeAgent_try_def Let_def split: prod.splits)

lemma executeAgent_success_whatever_the_swap:
  assumes "getAgentWithPrivateKey env = Inr (Some agent)"
    and "agent_status agent = ''active''"
    and "fetchAccountBalance env = Inr balance"
    and "prediction_result env = Inr prediction"
  shows "exec_success (fst (executeAgent env now agentId' db)) \<and>
         exec_error (fst (executeAgent env now agentId' db)) = None"
proof -
  obtain st where "executeAgent_try env now agentId' db = (st, None)"
    using executeAgent_try_reaches_end [OF assms, of now agentId' db]
    by (cases "executeAgent_try env now agentId' db") auto
  then show ?thesis
    by (cases st) (simp add: executeAgent_def)
qed

text \<open>
  C1, evaluated on a run whose swap fails. The agent is active, the three first stages
  complete, and \<open>executeTokenSwap\<close> returns \<open>success = false\<close> with the error of an
  exhausted finality poll. \<open>executeAgent\<close> marks the swap task failed in the ledger, with
  that error message, and still returns \<open>success = true\<close> with all four task ids and no
  error.
\<close>

theorem executeAgent_reports_success_after_failed_swap:
  "fst (executeAgent
     \<lparr> getAgentWithPrivateKey =
         Inr (Some \<lparr> agent_accountId = ''agent.testnet'',
                     agent_description = Some ''swap 0.5 NEAR to a stable token'',
                     agent_status = ''active'', decryptedPrivateKey = ''ed25519:key'' \<rparr>),
       fetchAccountBalance = Inr ''10'',
       plan_result = default_plan,
       tokens_result = builtin_tokens,
       prediction_result =
         Inr \<lparr> selectedToken = ''usdt.fakes.testnet'', pred_symbol = ''USDT.e'',
               reasoning = ''stable'', confidence = Some (1 / 2), pred_price = ''0.999892'' \<rparr>,
       extract_amount = (\<lambda>description' balance. ''0.5''),
       swap_result =
         \<lparr> success = False, transactionHash = None,
           error = Some ''Transaction StorageTx did not finalize in time'',
           amountSwapped = None \<rparr> \<rparr>
     1 ''agent-1'' []) =
     \<lparr> exec_success = True, taskIds = [0, 1, 2, 3], exec_error = None \<rparr> \<and>
   map status (snd (executeAgent
     \<lparr> getAgentWithPrivateKey =
         Inr (Some \<lparr> agent_accountId = ''agent.testnet'',
                     agent_description = Some ''swap 0.5 NEAR to a stable token'',
                     agent_status = ''active'', decryptedPrivateKey = ''ed25519:key'' \<rparr>),
       fetchAccountBalance = Inr ''10'',
       plan_result = default_plan,
       tokens_result = builtin_tokens,
       prediction_result =
         Inr \<lparr> selectedToken = ''usdt.fakes.testnet'', pred_symbol = ''USDT.e'',
               reasoning = ''stable'', confidence = Some (1 / 2), pred_price = ''0.999892'' \<rparr>,
       extract_amount = (\<lambda>description' balance. ''0.5''),
       swap_result =
         \<lparr> success = False, transactionHash = None,
           error = Some ''Transaction StorageTx did not finalize in time'',
           amountSwapped = None \<rparr> \<rparr>
     1 ''agent-1'' [])) = [Completed, Completed, Completed, Failed] \<and>
   map errorMessage (snd (executeAgent
     \<lparr> getAgentWithPrivateKey =
         Inr (Some \<lparr> agent_accountId = ''agent.testnet'',
                     agent_description = Some ''swap 0.5 NEAR to a stable token'',
                     agent_status = ''active'', decryptedPrivateKey = ''ed25519:key'' \<rparr>),
       fetchAccountBalance = Inr ''10'',
       plan_result = default_plan,
       tokens_result = builtin_tokens,
       prediction_result =
         Inr \<lparr> selectedToken = ''usdt.fakes.testnet'', pred_symbol = ''USDT.e'',
               reasoning = ''stable'', confidence = Some (1 / 2), pred_price = ''0.999892'' \<rparr>,
       extract_amount = (\<lambda>description' balance. ''0.5''),
       swap_result =
         \<lparr> success = False, transactionHash = None,
           error = Some ''Transaction StorageTx did not finalize in time'',
           amountSwapped = None \<rparr> \<rparr>
     1 ''agent-1'' [])) =
     [None, None, None, Some ''Transaction StorageTx did not finalize in time'']"
  by code_simp

end
